theory Spec2Isabelle
  imports Complex_Main "HOL-Library.Word"
begin

section \<open>Conventions\<close>

text \<open>
  Python floats and the elements of numpy and chainer arrays are modelled as \<^typ>\<open>real\<close>:
  every arithmetic operation is exact (the one explicit conversion, \<open>astype(float32)\<close> in
  \<open>load_image\<close>, rounds). An array of rank \<open>n\<close> is a list nested \<open>n\<close> deep in row-major
  order, outermost axis first. An array has one extent per axis, so only rectangular
  nestings stand for arrays; the nesting cannot record the inner extents of an array with
  an empty axis, so \<open>shape2\<close>, \<open>shape3\<close> and \<open>shape4\<close> below give a shape only to rectangular
  nestings whose extents are all positive, and every operation that reads \<open>x.shape\<close>
  answers \<open>ShapeError\<close> on anything else.

  Whatever the libraries raise is a value of \<open>error\<close>: a result is \<open>Inl e\<close> for a raise and
  \<open>Inr v\<close> for a return.
\<close>

datatype error = ShapeError | ZeroDivisionError | FileNotFoundError | ValueError | KeyError | OSError

definition is_mat :: "nat \<Rightarrow> nat \<Rightarrow> 'a list list \<Rightarrow> bool" where
  "is_mat h w m \<longleftrightarrow> length m = h \<and> list_all (\<lambda>r. length r = w) m"

definition is_t3 :: "nat \<Rightarrow> nat \<Rightarrow> nat \<Rightarrow> 'a list list list \<Rightarrow> bool" where
  "is_t3 c h w t \<longleftrightarrow> length t = c \<and> list_all (is_mat h w) t"

definition is_t4 :: "nat \<Rightarrow> nat \<Rightarrow> nat \<Rightarrow> nat \<Rightarrow> 'a list list list list \<Rightarrow> bool" where
  "is_t4 b c h w t \<longleftrightarrow> length t = b \<and> list_all (is_t3 c h w) t"

definition shape2 :: "'a list list \<Rightarrow> (nat \<times> nat) option" where
  "shape2 m =
     (case m of
        [] \<Rightarrow> None
      | r # _ \<Rightarrow> if r \<noteq> [] \<and> is_mat (length m) (length r) m
                 then Some (length m, length r) else None)"

definition shape3 :: "'a list list list \<Rightarrow> (nat \<times> nat \<times> nat) option" where
  "shape3 t =
     (case t of
        [] \<Rightarrow> None
      | m # _ \<Rightarrow>
          (case shape2 m of
             None \<Rightarrow> None
           | Some (h, w) \<Rightarrow> if is_t3 (length t) h w t then Some (length t, h, w) else None))"

definition shape4 :: "'a list list list list \<Rightarrow> (nat \<times> nat \<times> nat \<times> nat) option" where
  "shape4 x =
     (case x of
        [] \<Rightarrow> None
      | t # _ \<Rightarrow>
          (case shape3 t of
             None \<Rightarrow> None
           | Some (c, h, w) \<Rightarrow>
               if is_t4 (length x) c h w x then Some (length x, c, h, w) else None))"

section \<open>utilities/image.py\<close>

subsection \<open>The sRGB transfer functions\<close>

definition gamma_forward :: "real \<Rightarrow> real" where
  "gamma_forward u =
     (if u \<le> 0.0031308 then 12.92 * u else 1.055 * u powr (1 / 2.4) - 0.055)"

definition gamma_reverse :: "real \<Rightarrow> real" where
  "gamma_reverse u =
     (if u \<le> 0.04045 then u / 12.92 else ((u + 0.055) / 1.055) powr 2.4)"

text \<open>\<open>numpy.vectorize\<close> applies the scalar function to every element; both uses are on
  arrays of rank 3.\<close>

definition rgb_to_srgb :: "real list list list \<Rightarrow> real list list list" where
  "rgb_to_srgb = map (map (map gamma_forward))"


subsection \<open>Image files\<close>

text \<open>
  What \<open>Image.open(filepath).convert("RGB")\<close> hands on is a raster of 8-bit samples,
  height by width by 3. The files are a map from paths to the rasters that they decode
  to. \<open>Image.size\<close> is (width, height). \<open>Image.resize\<close> returns a copy when the
  requested size is the image's own; the resampling filter used otherwise is the
  parameter \<open>lanczos\<close>. The resized image has the requested size (a size with a zero
  extent is refused by the library), which is the check in \<open>load_image\<close>.
\<close>

type_synonym raster = "8 word list list list"

type_synonym files = "string \<rightharpoonup> raster"




definition transpose_120 :: "nat \<Rightarrow> nat \<Rightarrow> nat \<Rightarrow> 'a list list list \<Rightarrow> 'a list list list" where
  "transpose_120 c h w a =
     map (\<lambda>i. map (\<lambda>j. map (\<lambda>k. a ! k ! i ! j) [0..<c]) [0..<w]) [0..<h]"

text \<open>\<open>numpy.rint\<close> rounds to the nearest integer, a tie to the even one; \<open>numpy.clip\<close>
  bounds from below, then from above; \<open>astype(uint8)\<close> is then exact.\<close>

definition rint :: "real \<Rightarrow> int" where
  "rint x =
     (let f = \<lfloor>x\<rfloor>; d = x - of_int f
      in if d < 1 / 2 then f else if 1 / 2 < d then f + 1 else if even f then f else f + 1)"

definition clip :: "int \<Rightarrow> int \<Rightarrow> int \<Rightarrow> int" where
  "clip a lo hi = min hi (max lo a)"



definition to_pil_image :: "real list list list \<Rightarrow> error + raster" where
  "to_pil_image array =
     (case shape3 array of
        None \<Rightarrow> Inl ShapeError
      | Some (c, h, w) \<Rightarrow>
          if c \<noteq> 3 then Inl ShapeError
          else
            let srgb = map (map (map (\<lambda>v. (word_of_int (clip (rint (v * 255)) 0 255) :: 8 word))))
                         (rgb_to_srgb array)
            in Inr (transpose_120 c h w srgb))"

text \<open>
  \<open>Image.save(filepath)\<close>, given no format, looks up the extension of the path,
  \<open>os.path.splitext(filepath)[1].lower()\<close>, in the registry \<open>Image.EXTENSION\<close> and raises
  \<open>ValueError\<close> when it is not there (the empty extension never is); it looks up the
  format found, in upper case, in the registry \<open>Image.SAVE\<close> of the encoders (a format
  that can only be read has none: \<open>KeyError\<close>), opens the path for writing (\<open>OSError\<close>
  when it cannot be: a missing directory, a missing permission) and runs the encoder.
  What the two registries hold depends on the installed plugins, and which paths can be
  written on the file system: the three are the fields of \<open>host\<close>. An encoder can refuse
  an RGB image, and the file it writes need not decode to the raster it was given: PNG
  stores an RGB raster exactly, JPEG does not. An encoder is modelled by what
  \<open>Image.open(filepath).convert("RGB")\<close> reads from the file it has written, or by what
  it raises.

  \<open>splitext\<close> is the one of \<open>posixpath\<close>: the extension starts at the last dot of the last
  component of the path, the leading dots of that component not counted. \<open>lower\<close> and
  \<open>upper\<close> map the letters of ASCII.
\<close>

definition lower :: "string \<Rightarrow> string" where
  "lower =
     map (\<lambda>c. case map_of (zip ''ABCDEFGHIJKLMNOPQRSTUVWXYZ'' ''abcdefghijklmnopqrstuvwxyz'') c of
                 None \<Rightarrow> c
               | Some l \<Rightarrow> l)"

definition upper :: "string \<Rightarrow> string" where
  "upper =
     map (\<lambda>c. case map_of (zip ''abcdefghijklmnopqrstuvwxyz'' ''ABCDEFGHIJKLMNOPQRSTUVWXYZ'') c of
                 None \<Rightarrow> c
               | Some u \<Rightarrow> u)"

definition splitext :: "string \<Rightarrow> string \<times> string" where
  "splitext p =
     (let name = rev (takeWhile (\<lambda>c. c \<noteq> CHR ''/'') (rev p));
          stem = dropWhile (\<lambda>c. c = CHR ''.'') name;
          ext = rev (takeWhile (\<lambda>c. c \<noteq> CHR ''.'') (rev stem))
      in if CHR ''.'' \<in> set stem
         then (take (length p - Suc (length ext)) p, drop (length p - Suc (length ext)) p)
         else (p, []))"

type_synonym encoder = "raster \<Rightarrow> error + raster"

record host =
  EXTENSION :: "string \<rightharpoonup> string"
  SAVE :: "string \<rightharpoonup> encoder"
  writable :: "string \<Rightarrow> bool"

definition save_image :: "host \<Rightarrow> real list list list \<Rightarrow> string \<Rightarrow> files \<Rightarrow> error + files" where
  "save_image os array filepath fs =
     (case to_pil_image array of
        Inl e \<Rightarrow> Inl e
      | Inr img \<Rightarrow>
          (case EXTENSION os (lower (snd (splitext filepath))) of
             None \<Rightarrow> Inl ValueError
           | Some format \<Rightarrow>
               (case SAVE os (upper format) of
                  None \<Rightarrow> Inl KeyError
                | Some save_handler \<Rightarrow>
                    if \<not> writable os filepath then Inl OSError
                    else
                      (case save_handler img of
                         Inl e \<Rightarrow> Inl e
                       | Inr written \<Rightarrow> Inr (fs(filepath \<mapsto> written))))))"

section \<open>stylegan/links/generator.py\<close>

type_synonym tensor2 = "real list list"

type_synonym tensor3 = "real list list list"

type_synonym tensor4 = "real list list list list"

type_synonym tensor5 = "real list list list list list"

text \<open>Sequencing of calls that can raise: the first raise is the result.\<close>

definition and_then :: "error + 'a \<Rightarrow> ('a \<Rightarrow> error + 'b) \<Rightarrow> error + 'b" where
  "and_then r f = (case r of Inl e \<Rightarrow> Inl e | Inr v \<Rightarrow> f v)"

subsection \<open>Operations of numpy and chainer that the source calls\<close>

text \<open>
  Where extents disagree the libraries raise; the model answers \<open>ShapeError\<close>. It also
  answers \<open>ShapeError\<close> where numpy would stretch an axis of extent 1 against a longer
  one, or regroup with \<open>reshape\<close> an array of the right size and another shape: the source
  relies on stretching only for the axes it inserts itself with \<open>reshape\<close>, and those are
  written out below.
\<close>

definition map4 :: "('a \<Rightarrow> 'b) \<Rightarrow> 'a list list list list \<Rightarrow> 'b list list list list" where
  "map4 f = map (map (map (map f)))"

text \<open>\<open>a + b\<close> on two arrays of rank 4.\<close>

definition add4 :: "tensor4 \<Rightarrow> tensor4 \<Rightarrow> error + tensor4" where
  "add4 a b =
     (if shape4 a \<noteq> None \<and> shape4 a = shape4 b
      then Inr (map2 (map2 (map2 (map2 (+)))) a b) else Inl ShapeError)"

text \<open>\<open>reshape\<close> of one axis of extent \<open>k * n\<close> into two axes of extents \<open>k\<close> and \<open>n\<close>; the
  opposite reshape, two axes into one, is \<^const>\<open>concat\<close>.\<close>

definition unflatten :: "nat \<Rightarrow> nat \<Rightarrow> 'a list \<Rightarrow> 'a list list" where
  "unflatten k n xs = map (\<lambda>g. take n (drop (g * n) xs)) [0..<k]"

text \<open>\<open>pad(x, ((0, 0), (0, 0), (p, p), (p, p)), mode="edge")\<close>: each of the last two axes
  is extended on both sides by \<open>p\<close> copies of its first and of its last entry.\<close>

definition pad_edge :: "nat \<Rightarrow> 'a list \<Rightarrow> 'a list" where
  "pad_edge p xs =
     (case xs of [] \<Rightarrow> [] | _ \<Rightarrow> replicate p (hd xs) @ xs @ replicate p (last xs))"

definition pad :: "tensor4 \<Rightarrow> nat \<Rightarrow> tensor4" where
  "pad x p = map (map (\<lambda>m. pad_edge p (map (pad_edge p) m))) x"

text \<open>
  \<open>convolution_2d(x, W, stride=1, pad=0, groups=groups)\<close>: \<open>x\<close> has shape \<open>(n, xc, h, w)\<close> and
  \<open>W\<close> has shape \<open>(yc, wc, kh, kw)\<close> with \<open>xc = wc * groups\<close>. The input channels and the
  output channels are cut into \<open>groups\<close> consecutive runs; an output channel of run \<open>g\<close> is
  the cross-correlation of its kernel with the input channels of run \<open>g\<close>. The sums are
  exact here. The library adds float32 products in an order that its matrix kernels
  choose, and that changes with \<open>groups\<close> (one group takes another path than several), so
  its results for the same sample can differ in the last bits from one group count to
  another; nothing below speaks of those bits.
\<close>

definition correlate :: "nat \<Rightarrow> nat \<Rightarrow> nat \<Rightarrow> nat \<Rightarrow> tensor3 \<Rightarrow> tensor3 \<Rightarrow> tensor2" where
  "correlate kh kw oh ow xs ks =
     map (\<lambda>i. map (\<lambda>j.
       sum_list (map2 (\<lambda>xc kc.
         sum_list (map (\<lambda>di.
           sum_list (map (\<lambda>dj. xc ! (i + di) ! (j + dj) * kc ! di ! dj) [0..<kw])) [0..<kh]))
         xs ks)) [0..<ow]) [0..<oh]"

definition convolution_2d :: "tensor4 \<Rightarrow> tensor4 \<Rightarrow> nat \<Rightarrow> error + tensor4" where
  "convolution_2d x W groups =
     (case (shape4 x, shape4 W) of
        (Some (n, xc, h, w), Some (yc, wc, kh, kw)) \<Rightarrow>
          if xc \<noteq> wc * groups \<or> yc mod groups \<noteq> 0 \<or> h < kh \<or> w < kw then Inl ShapeError
          else Inr (map (\<lambda>xn. concat (map (\<lambda>g.
                 map (correlate kh kw (h - kh + 1) (w - kw + 1) (take wc (drop (g * wc) xn)))
                   (take (yc div groups) (drop (g * (yc div groups)) W))) [0..<groups])) x)
      | _ \<Rightarrow> Inl ShapeError)"

text \<open>
  \<open>resize_images(x, output_shape, align_corners=False)\<close>, bilinear: output row \<open>i\<close> reads
  the source at \<open>max ((i + 0.5) * (h / out_h) - 0.5, 0)\<close>, between the row at the integer
  part and the next one (the last row at most), weighted by the fractional part; columns
  likewise.
\<close>

definition source_coord :: "nat \<Rightarrow> nat \<Rightarrow> nat \<Rightarrow> real" where
  "source_coord n out i = max ((real i + 0.5) * (real n / real out) - 0.5) 0"

definition interpolate_bilinear :: "nat \<Rightarrow> nat \<Rightarrow> nat \<Rightarrow> nat \<Rightarrow> tensor2 \<Rightarrow> tensor2" where
  "interpolate_bilinear h w out_h out_w m =
     map (\<lambda>i.
       let v = source_coord h out_h i; v0 = nat \<lfloor>v\<rfloor>; vw = v - real v0;
           v1 = min (v0 + 1) (h - 1)
       in map (\<lambda>j.
            let u = source_coord w out_w j; u0 = nat \<lfloor>u\<rfloor>; uw = u - real u0;
                u1 = min (u0 + 1) (w - 1)
            in (1 - uw) * (1 - vw) * m ! v0 ! u0 + uw * (1 - vw) * m ! v0 ! u1
               + (1 - uw) * vw * m ! v1 ! u0 + uw * vw * m ! v1 ! u1) [0..<out_w]) [0..<out_h]"

definition resize_images :: "tensor4 \<Rightarrow> nat \<times> nat \<Rightarrow> error + tensor4" where
  "resize_images x output_shape =
     (case shape4 x of
        None \<Rightarrow> Inl ShapeError
      | Some (b, c, h, w) \<Rightarrow>
          if fst output_shape = 0 \<or> snd output_shape = 0 then Inl ShapeError
          else Inr (map (map (interpolate_bilinear h w (fst output_shape) (snd output_shape))) x))"

text \<open>\<open>sum(t, axis=(2, 3, 4), keepdims=True)\<close> on an array of rank 5; the three kept axes
  of extent 1 are left out of the nesting.\<close>

definition sum_axes_234 :: "tensor5 \<Rightarrow> tensor2" where
  "sum_axes_234 t = map (map (\<lambda>k. sum_list (map (\<lambda>m. sum_list (map sum_list m)) k))) t"

text \<open>\<open>scale(n, s)\<close> (axis 1): every channel \<open>c\<close> of \<open>n\<close> is multiplied by \<open>s[c]\<close>.\<close>

definition scale_axis1 :: "tensor4 \<Rightarrow> real list \<Rightarrow> tensor4" where
  "scale_axis1 n s = map (\<lambda>t. map2 (\<lambda>m sc. map (map (\<lambda>v. v * sc)) m) t s) n"

subsection \<open>Links of \<open>stylegan.links.common\<close>\<close>

text \<open>
  \<open>stylegan/links/common.py\<close>, from which the source imports \<open>EqualizedLinear\<close>, \<open>LeakyRelu\<close>
  and \<open>GaussianDistribution\<close>, is not among the sources.
\<close>

text \<open>
  Modelled from the spec: \<open>EqualizedLinear(size, channels, ...)\<close> is missing. In the words of
  the spec it is "a learned affine map (weight matrix c x d plus bias)" taking a style
  vector of dimension \<open>d\<close> to a modulation vector of length \<open>c\<close>; it is applied to each
  sample of the batch.
\<close>

record EqualizedLinear =
  el_W :: tensor2
  el_b :: "real list"

definition EqualizedLinear_call :: "EqualizedLinear \<Rightarrow> tensor2 \<Rightarrow> error + tensor2" where
  "EqualizedLinear_call l x =
     (case shape2 x of
        None \<Rightarrow> Inl ShapeError
      | Some (batch, d) \<Rightarrow>
          if \<not> is_mat (length (el_b l)) d (el_W l) then Inl ShapeError
          else Inr (map (\<lambda>xs. map2 (\<lambda>row bias. sum_list (map2 (*) row xs) + bias)
                                 (el_W l) (el_b l)) x))"

text \<open>
  Modelled from the spec: \<open>LeakyRelu()\<close> is missing. In the words of the spec it is the
  "leaky rectified linear" nonlinearity, whose slope is "fixed"; it is applied to every
  element.
\<close>

record LeakyRelu =
  lr_slope :: real

definition LeakyRelu_call :: "LeakyRelu \<Rightarrow> tensor4 \<Rightarrow> tensor4" where
  "LeakyRelu_call a x = map4 (\<lambda>v. if v < 0 then lr_slope a * v else v) x"

text \<open>
  A random array of shape \<open>(b, c, h, w)\<close> is modelled by the draw it is filled from: a
  function from a position (first to last axis) to the value drawn there.
\<close>

type_synonym draw = "nat \<Rightarrow> nat \<Rightarrow> nat \<Rightarrow> nat \<Rightarrow> real"

definition tabulate4 :: "draw \<Rightarrow> nat \<Rightarrow> nat \<Rightarrow> nat \<Rightarrow> nat \<Rightarrow> tensor4" where
  "tabulate4 g b c h w =
     map (\<lambda>n. map (\<lambda>k. map (\<lambda>i. map (\<lambda>j. g n k i j) [0..<w]) [0..<h]) [0..<c]) [0..<b]"

text \<open>
  Modelled from the spec: \<open>GaussianDistribution()\<close> is missing. In the words of the spec,
  calling it with a shape "generates, at every invocation, a fresh ... noise tensor drawn
  independently per pixel from a standard normal distribution". The draw of an
  invocation is an argument of the model.
\<close>

definition GaussianDistribution_call :: "draw \<Rightarrow> nat \<Rightarrow> nat \<Rightarrow> nat \<Rightarrow> nat \<Rightarrow> tensor4" where
  "GaussianDistribution_call g b c h w = tabulate4 g b c h w"

subsection \<open>StyleAffineTransform\<close>

record StyleAffineTransform =
  sat_s :: EqualizedLinear

definition StyleAffineTransform_call :: "StyleAffineTransform \<Rightarrow> tensor2 \<Rightarrow> error + tensor2" where
  "StyleAffineTransform_call t w = EqualizedLinear_call (sat_s t) w"

subsection \<open>WeightDemodulatedConvolution2D\<close>

record WeightDemodulatedConvolution2D =
  wdc_demod :: bool
  wdc_ksize :: nat
  wdc_pad :: nat
  wdc_c :: real
  wdc_w :: tensor4
  wdc_b :: "real list"

text \<open>
  \<open>__init__\<close>. The weight of shape \<open>(out_channels, in_channels, ksize, ksize)\<close> is filled by
  \<open>Normal(1.0)\<close>, here from the draw \<open>g\<close>; the bias is zero. The division
  \<open>1 / (in_channels * self.ksize ** 2)\<close> raises for \<open>in_channels = 0\<close>.
\<close>

definition WeightDemodulatedConvolution2D_init ::
  "nat \<Rightarrow> nat \<Rightarrow> bool \<Rightarrow> bool \<Rightarrow> real \<Rightarrow> draw \<Rightarrow> error + WeightDemodulatedConvolution2D"
where
  "WeightDemodulatedConvolution2D_init in_channels out_channels pointwise demod gain g =
     (let ksize = (if pointwise then 1 else 3);
          pad = (if pointwise then 0 else 1)
      in if in_channels * ksize ^ 2 = 0 then Inl ZeroDivisionError
         else Inr \<lparr>wdc_demod = demod, wdc_ksize = ksize, wdc_pad = pad,
                   wdc_c = gain * sqrt (1 / real (in_channels * ksize ^ 2)),
                   wdc_w = tabulate4 g out_channels in_channels ksize ksize,
                   wdc_b = replicate out_channels 0\<rparr>)"

text \<open>
  The state of a layer built by \<open>__init__\<close> and trained since: training changes the values
  of the weight and of the bias, nothing else. (A layer with no output channel has an
  empty weight array, which has no shape here.)
\<close>

definition is_conv ::
  "nat \<Rightarrow> nat \<Rightarrow> bool \<Rightarrow> bool \<Rightarrow> real \<Rightarrow> WeightDemodulatedConvolution2D \<Rightarrow> bool"
where
  "is_conv in_channels out_channels pointwise demod gain l \<longleftrightarrow>
     0 < in_channels \<and> 0 < out_channels \<and>
     wdc_demod l = demod \<and>
     wdc_ksize l = (if pointwise then 1 else 3) \<and>
     wdc_pad l = (if pointwise then 0 else 1) \<and>
     wdc_c l = gain * sqrt (1 / real (in_channels * wdc_ksize l ^ 2)) \<and>
     is_t4 out_channels in_channels (wdc_ksize l) (wdc_ksize l) (wdc_w l) \<and>
     length (wdc_b l) = out_channels"

text \<open>Line 32: \<open>self.w * y.reshape(batch, 1, in_channels, 1, 1)\<close>.\<close>

definition modulate :: "tensor4 \<Rightarrow> tensor2 \<Rightarrow> tensor5" where
  "modulate W y = map (\<lambda>ys. map (\<lambda>k. map2 (\<lambda>kc yc. map (map (\<lambda>v. v * yc)) kc) k ys) W) y"

text \<open>Line 33: the divisor \<open>sqrt(sum(mod_w ** 2, axis=(2, 3, 4), keepdims=True) + eps)\<close> and
  the quotient \<open>mod_w / sqrt(...)\<close>; the source has \<open>eps = 1e-8\<close>.\<close>

definition demod_divisor :: "real \<Rightarrow> tensor5 \<Rightarrow> tensor2" where
  "demod_divisor eps mod_w =
     map (map (\<lambda>s. sqrt (s + eps)))
       (sum_axes_234 (map (map (map (map (map (\<lambda>v. v ^ 2))))) mod_w))"

definition demodulate :: "real \<Rightarrow> tensor5 \<Rightarrow> tensor5" where
  "demodulate eps mod_w =
     map2 (map2 (\<lambda>k d. map (map (map (\<lambda>v. v / d))) k)) mod_w (demod_divisor eps mod_w)"

definition WeightDemodulatedConvolution2D_call ::
  "WeightDemodulatedConvolution2D \<Rightarrow> tensor4 \<Rightarrow> tensor2 \<Rightarrow> error + tensor4"
where
  "WeightDemodulatedConvolution2D_call l x y =
     (let out_channels = length (wdc_b l) in
      case shape4 x of
        None \<Rightarrow> Inl ShapeError
      | Some (batch, in_channels, height, width) \<Rightarrow>
          if shape2 y \<noteq> Some (batch, in_channels)
             \<or> \<not> is_t4 out_channels in_channels (wdc_ksize l) (wdc_ksize l) (wdc_w l)
          then Inl ShapeError
          else
            let mod_w = modulate (wdc_w l) y;
                w = (if wdc_demod l then demodulate 0.00000001 mod_w else mod_w);
                group_w = concat w;
                group_x = [concat x];
                pad_group_x = pad group_x (wdc_pad l)
            in and_then (convolution_2d pad_group_x group_w batch) (\<lambda>h.
                 if shape4 h \<noteq> Some (1, batch * out_channels, height, width)
                 then Inl ShapeError
                 else Inr (map (\<lambda>t. map2 (\<lambda>m bias. map (map (\<lambda>v. v + bias)) m) t (wdc_b l))
                             (unflatten batch out_channels (concat h)))))"

subsection \<open>NoiseAdder\<close>

record NoiseAdder =
  na_s :: "real list"

text \<open>\<open>g\<close> is what \<open>self.g\<close> draws at this call.\<close>

definition NoiseAdder_call :: "NoiseAdder \<Rightarrow> draw \<Rightarrow> tensor4 \<Rightarrow> error + tensor4" where
  "NoiseAdder_call a g x =
     (case shape4 x of
        None \<Rightarrow> Inl ShapeError
      | Some (b, c, h, w) \<Rightarrow>
          let n = map (\<lambda>t. concat (map (replicate c) t)) (GaussianDistribution_call g b 1 h w)
          in if length (na_s a) \<noteq> c then Inl ShapeError
             else add4 x (scale_axis1 n (na_s a)))"

subsection \<open>Upsampler\<close>

definition Upsampler_call :: "tensor4 \<Rightarrow> error + tensor4" where
  "Upsampler_call x =
     (case shape4 x of
        None \<Rightarrow> Inl ShapeError
      | Some (b, c, height, width) \<Rightarrow> resize_images x (height * 2, width * 2))"

subsection \<open>ToRGB\<close>

record ToRGB =
  trgb_w :: WeightDemodulatedConvolution2D

definition ToRGB_init :: "nat \<Rightarrow> draw \<Rightarrow> error + ToRGB" where
  "ToRGB_init in_channels g =
     and_then (WeightDemodulatedConvolution2D_init in_channels 3 True False 1 g)
       (\<lambda>l. Inr \<lparr>trgb_w = l\<rparr>)"

definition ToRGB_call :: "ToRGB \<Rightarrow> tensor4 \<Rightarrow> tensor2 \<Rightarrow> error + tensor4" where
  "ToRGB_call t x y = WeightDemodulatedConvolution2D_call (trgb_w t) x y"

subsection \<open>InitialSkipArchitecture\<close>

record InitialSkipArchitecture =
  isa_c1 :: tensor3
  isa_s1 :: StyleAffineTransform
  isa_w1 :: WeightDemodulatedConvolution2D
  isa_n1 :: NoiseAdder
  isa_a1 :: LeakyRelu
  isa_s2 :: StyleAffineTransform
  isa_trgb :: ToRGB

text \<open>\<open>g1\<close> is the draw of \<open>self.n1\<close> at this call. \<open>broadcast_to\<close> repeats the one entry of
  \<open>h1\<close> along the first axis, \<open>batch\<close> times.\<close>

definition InitialSkipArchitecture_call ::
  "InitialSkipArchitecture \<Rightarrow> draw \<Rightarrow> tensor2 \<Rightarrow> error + tensor4 \<times> tensor4"
where
  "InitialSkipArchitecture_call p g1 w =
     (let batch = length w;
          h1 = [isa_c1 p];
          h2 = concat (replicate batch h1)
      in and_then (StyleAffineTransform_call (isa_s1 p) w) (\<lambda>y1.
         and_then (WeightDemodulatedConvolution2D_call (isa_w1 p) h2 y1) (\<lambda>h3.
         and_then (NoiseAdder_call (isa_n1 p) g1 h3) (\<lambda>h4.
           let h5 = LeakyRelu_call (isa_a1 p) h4
           in and_then (StyleAffineTransform_call (isa_s2 p) w) (\<lambda>y2.
              and_then (ToRGB_call (isa_trgb p) h5 y2) (\<lambda>rgb. Inr (h5, rgb)))))))"

subsection \<open>SkipArchitecture\<close>

record SkipArchitecture =
  sa_s1 :: StyleAffineTransform
  sa_w1 :: WeightDemodulatedConvolution2D
  sa_n1 :: NoiseAdder
  sa_a1 :: LeakyRelu
  sa_s2 :: StyleAffineTransform
  sa_w2 :: WeightDemodulatedConvolution2D
  sa_n2 :: NoiseAdder
  sa_a2 :: LeakyRelu
  sa_s3 :: StyleAffineTransform
  sa_trgb :: ToRGB

text \<open>\<open>self.up\<close> and \<open>self.skip\<close> are two \<open>Upsampler\<close> links, which hold no state. \<open>g1\<close> and
  \<open>g2\<close> are the draws of \<open>self.n1\<close> and \<open>self.n2\<close> at this call.\<close>

definition SkipArchitecture_call ::
  "SkipArchitecture \<Rightarrow> draw \<Rightarrow> draw \<Rightarrow> tensor4 \<Rightarrow> tensor4 \<Rightarrow> tensor2 \<Rightarrow> error + tensor4 \<times> tensor4"
where
  "SkipArchitecture_call p g1 g2 x y w =
     and_then (Upsampler_call x) (\<lambda>h1.
     and_then (StyleAffineTransform_call (sa_s1 p) w) (\<lambda>y1.
     and_then (WeightDemodulatedConvolution2D_call (sa_w1 p) h1 y1) (\<lambda>h2.
     and_then (NoiseAdder_call (sa_n1 p) g1 h2) (\<lambda>h3.
       let h4 = LeakyRelu_call (sa_a1 p) h3
       in and_then (StyleAffineTransform_call (sa_s2 p) w) (\<lambda>y2.
          and_then (WeightDemodulatedConvolution2D_call (sa_w2 p) h4 y2) (\<lambda>h5.
          and_then (NoiseAdder_call (sa_n2 p) g2 h5) (\<lambda>h6.
            let h7 = LeakyRelu_call (sa_a2 p) h6
            in and_then (Upsampler_call y) (\<lambda>up_y.
               and_then (StyleAffineTransform_call (sa_s3 p) w) (\<lambda>y3.
               and_then (ToRGB_call (sa_trgb p) h7 y3) (\<lambda>rgb.
               and_then (add4 up_y rgb) (\<lambda>acc. Inr (h7, acc))))))))))))"

subsection \<open>Built blocks\<close>

text \<open>
  The states of the other links after \<open>__init__\<close> and any training: the extents that
  \<open>__init__\<close> gives to each parameter, with \<open>d\<close> the dimension of the style vector (the
  \<open>size\<close> argument). The convolutions of the blocks take the default \<open>gain = root(2)\<close>.
\<close>

definition is_affine :: "nat \<Rightarrow> nat \<Rightarrow> StyleAffineTransform \<Rightarrow> bool" where
  "is_affine d c t \<longleftrightarrow> 0 < d \<and> 0 < c \<and> is_mat c d (el_W (sat_s t)) \<and> length (el_b (sat_s t)) = c"

definition is_initial :: "nat \<Rightarrow> nat \<Rightarrow> nat \<Rightarrow> InitialSkipArchitecture \<Rightarrow> bool" where
  "is_initial d in_channels out_channels p \<longleftrightarrow>
     is_t3 in_channels 4 4 (isa_c1 p) \<and>
     is_affine d in_channels (isa_s1 p) \<and>
     is_conv in_channels out_channels False True (sqrt 2) (isa_w1 p) \<and>
     length (na_s (isa_n1 p)) = out_channels \<and>
     is_affine d out_channels (isa_s2 p) \<and>
     is_conv out_channels 3 True False 1 (trgb_w (isa_trgb p))"

definition is_skip :: "nat \<Rightarrow> nat \<Rightarrow> nat \<Rightarrow> SkipArchitecture \<Rightarrow> bool" where
  "is_skip d in_channels out_channels p \<longleftrightarrow>
     is_affine d in_channels (sa_s1 p) \<and>
     is_conv in_channels out_channels False True (sqrt 2) (sa_w1 p) \<and>
     length (na_s (sa_n1 p)) = out_channels \<and>
     is_affine d out_channels (sa_s2 p) \<and>
     is_conv out_channels out_channels False True (sqrt 2) (sa_w2 p) \<and>
     length (na_s (sa_n2 p)) = out_channels \<and>
     is_affine d out_channels (sa_s3 p) \<and>
     is_conv out_channels 3 True False 1 (trgb_w (sa_trgb p))"

subsection \<open>One sample at a time\<close>

text \<open>
  What each link computes for one sample of the batch, given the sample's own feature
  map, modulation vector, style vector and noise. These functions are not in the source;
  the lemmas below show that every call on a batch is the list of their results, sample
  by sample.
\<close>

definition sample_weights :: "WeightDemodulatedConvolution2D \<Rightarrow> real list \<Rightarrow> tensor4" where
  "sample_weights l ys =
     concat (let mod_w = modulate (wdc_w l) [ys]
             in if wdc_demod l then demodulate 0.00000001 mod_w else mod_w)"

definition conv_sample ::
  "WeightDemodulatedConvolution2D \<Rightarrow> nat \<Rightarrow> nat \<Rightarrow> tensor3 \<Rightarrow> real list \<Rightarrow> tensor3"
where
  "conv_sample l height width xs ys =
     map2 (\<lambda>m bias. map (map (\<lambda>v. v + bias)) m)
       (map (correlate (wdc_ksize l) (wdc_ksize l) height width
               (map (\<lambda>m. pad_edge (wdc_pad l) (map (pad_edge (wdc_pad l)) m)) xs))
          (sample_weights l ys))
       (wdc_b l)"

definition affine_sample :: "StyleAffineTransform \<Rightarrow> real list \<Rightarrow> real list" where
  "affine_sample t ws =
     map2 (\<lambda>row bias. sum_list (map2 (*) row ws) + bias) (el_W (sat_s t)) (el_b (sat_s t))"

definition noise_sample ::
  "NoiseAdder \<Rightarrow> nat \<Rightarrow> nat \<Rightarrow> (nat \<Rightarrow> nat \<Rightarrow> nat \<Rightarrow> real) \<Rightarrow> tensor3 \<Rightarrow> tensor3"
where
  "noise_sample a h w gn xs =
     map2 (map2 (map2 (+))) xs
       (map2 (\<lambda>m sc. map (map (\<lambda>v. v * sc)) m)
          (replicate (length (na_s a)) (map (\<lambda>i. map (\<lambda>j. gn 0 i j) [0..<w]) [0..<h])) (na_s a))"

definition upsample_sample :: "nat \<Rightarrow> nat \<Rightarrow> tensor3 \<Rightarrow> tensor3" where
  "upsample_sample h w xs = map (interpolate_bilinear h w (h * 2) (w * 2)) xs"

definition relu_sample :: "LeakyRelu \<Rightarrow> tensor3 \<Rightarrow> tensor3" where
  "relu_sample a xs = map (map (map (\<lambda>v. if v < 0 then lr_slope a * v else v))) xs"

definition initial_sample ::
  "InitialSkipArchitecture \<Rightarrow> (nat \<Rightarrow> nat \<Rightarrow> nat \<Rightarrow> real) \<Rightarrow> real list \<Rightarrow> tensor3 \<times> tensor3"
where
  "initial_sample p gn ws =
     (let h3 = conv_sample (isa_w1 p) 4 4 (isa_c1 p) (affine_sample (isa_s1 p) ws);
          h4 = noise_sample (isa_n1 p) 4 4 gn h3;
          h5 = relu_sample (isa_a1 p) h4
      in (h5, conv_sample (trgb_w (isa_trgb p)) 4 4 h5 (affine_sample (isa_s2 p) ws)))"

definition skip_sample ::
  "SkipArchitecture \<Rightarrow> nat \<Rightarrow> nat \<Rightarrow> (nat \<Rightarrow> nat \<Rightarrow> nat \<Rightarrow> real) \<Rightarrow> (nat \<Rightarrow> nat \<Rightarrow> nat \<Rightarrow> real) \<Rightarrow>
   tensor3 \<Rightarrow> tensor3 \<Rightarrow> real list \<Rightarrow> tensor3 \<times> tensor3"
where
  "skip_sample p h w gn1 gn2 xs ys ws =
     (let h1 = upsample_sample h w xs;
          h2 = conv_sample (sa_w1 p) (h * 2) (w * 2) h1 (affine_sample (sa_s1 p) ws);
          h3 = noise_sample (sa_n1 p) (h * 2) (w * 2) gn1 h2;
          h4 = relu_sample (sa_a1 p) h3;
          h5 = conv_sample (sa_w2 p) (h * 2) (w * 2) h4 (affine_sample (sa_s2 p) ws);
          h6 = noise_sample (sa_n2 p) (h * 2) (w * 2) gn2 h5;
          h7 = relu_sample (sa_a2 p) h6
      in (h7, map2 (map2 (map2 (+))) (upsample_sample h w ys)
                (conv_sample (trgb_w (sa_trgb p)) (h * 2) (w * 2) h7 (affine_sample (sa_s3 p) ws))))"

subsection \<open>Statements of the spec\<close>

text \<open>
  The convolution as the spec's equalized-learning-rate convention has it: the call of
  the source, on the weight multiplied by the scale constant \<open>self.c\<close>.
\<close>

definition equalized_call ::
  "WeightDemodulatedConvolution2D \<Rightarrow> tensor4 \<Rightarrow> tensor2 \<Rightarrow> error + tensor4"
where
  "equalized_call l x y =
     WeightDemodulatedConvolution2D_call (l\<lparr>wdc_w := map4 (\<lambda>v. v * wdc_c l) (wdc_w l)\<rparr>) x y"


text \<open>The sum of squares and the L2 norm of one output channel's weights, across
  \<open>(Cin, k, k)\<close>.\<close>

definition sum_squares :: "tensor3 \<Rightarrow> real" where
  "sum_squares k = sum_list (map (\<lambda>m. sum_list (map sum_list m)) (map (map (map (\<lambda>v. v ^ 2))) k))"

definition l2_norm :: "tensor3 \<Rightarrow> real" where
  "l2_norm k = sqrt (sum_squares k)"

subsection \<open>Example parameters\<close>

text \<open>Links with constant parameters of the extents that \<open>__init__\<close> gives them, on which
  the theorems below are instantiated.\<close>

definition example_conv :: "nat \<Rightarrow> nat \<Rightarrow> bool \<Rightarrow> bool \<Rightarrow> real \<Rightarrow> WeightDemodulatedConvolution2D" where
  "example_conv in_channels out_channels pointwise demod gain =
     (let ksize = (if pointwise then 1 else 3)
      in \<lparr>wdc_demod = demod, wdc_ksize = ksize, wdc_pad = (if pointwise then 0 else 1),
          wdc_c = gain * sqrt (1 / real (in_channels * ksize ^ 2)),
          wdc_w = replicate out_channels (replicate in_channels (replicate ksize (replicate ksize 1))),
          wdc_b = replicate out_channels 0\<rparr>)"

definition example_affine :: "nat \<Rightarrow> nat \<Rightarrow> StyleAffineTransform" where
  "example_affine d channels =
     \<lparr>sat_s = \<lparr>el_W = replicate channels (replicate d 0), el_b = replicate channels 1\<rparr>\<rparr>"

definition example_initial :: "nat \<Rightarrow> nat \<Rightarrow> nat \<Rightarrow> InitialSkipArchitecture" where
  "example_initial d in_channels out_channels =
     \<lparr>isa_c1 = replicate in_channels (replicate 4 (replicate 4 1)),
      isa_s1 = example_affine d in_channels,
      isa_w1 = example_conv in_channels out_channels False True (sqrt 2),
      isa_n1 = \<lparr>na_s = replicate out_channels 0\<rparr>,
      isa_a1 = \<lparr>lr_slope = 0.2\<rparr>,
      isa_s2 = example_affine d out_channels,
      isa_trgb = \<lparr>trgb_w = example_conv out_channels 3 True False 1\<rparr>\<rparr>"

definition example_skip :: "nat \<Rightarrow> nat \<Rightarrow> nat \<Rightarrow> SkipArchitecture" where
  "example_skip d in_channels out_channels =
     \<lparr>sa_s1 = example_affine d in_channels,
      sa_w1 = example_conv in_channels out_channels False True (sqrt 2),
      sa_n1 = \<lparr>na_s = replicate out_channels 0\<rparr>,
      sa_a1 = \<lparr>lr_slope = 0.2\<rparr>,
      sa_s2 = example_affine d out_channels,
      sa_w2 = example_conv out_channels out_channels False True (sqrt 2),
      sa_n2 = \<lparr>na_s = replicate out_channels 0\<rparr>,
      sa_a2 = \<lparr>lr_slope = 0.2\<rparr>,
      sa_s3 = example_affine d out_channels,
      sa_trgb = \<lparr>trgb_w = example_conv out_channels 3 True False 1\<rparr>\<rparr>"

section \<open>Shapes\<close>

lemma is_mat_nth: "is_mat h w m \<Longrightarrow> i < h \<Longrightarrow> length (m ! i) = w"
  by (simp add: is_mat_def list_all_length)

lemma is_t3_nth: "is_t3 c h w t \<Longrightarrow> k < c \<Longrightarrow> is_mat h w (t ! k)"
  by (simp add: is_t3_def list_all_length)

lemma is_t4_nth: "is_t4 b c h w x \<Longrightarrow> n < b \<Longrightarrow> is_t3 c h w (x ! n)"
  by (simp add: is_t4_def list_all_length)

lemma shape2_eq_Some:
  "shape2 m = Some (h, w) \<longleftrightarrow> 0 < h \<and> 0 < w \<and> is_mat h w m"
  by (cases m) (auto simp: shape2_def is_mat_def)

lemma shape3_eq_Some:
  "shape3 t = Some (c, h, w) \<longleftrightarrow> 0 < c \<and> 0 < h \<and> 0 < w \<and> is_t3 c h w t"
proof (cases t)
  case Nil
  then show ?thesis by (auto simp: shape3_def is_t3_def)
next
  case (Cons m ms)
  show ?thesis
  proof (cases "shape2 m")
    case None
    then have "\<not> (0 < h \<and> 0 < w \<and> is_mat h w m)"
      using shape2_eq_Some [of m h w] by simp
    then show ?thesis
      using Cons None by (auto simp: shape3_def is_t3_def)
  next
    case (Some p)
    obtain h' w' where p: "p = (h', w')" by (cases p)
    have m: "0 < h'" "0 < w'" "is_mat h' w' m"
      using Some p shape2_eq_Some [of m h' w'] by simp_all
    have "is_mat h w m \<Longrightarrow> h = h' \<and> w = w'"
      using m by (cases m) (auto simp: is_mat_def)
    then show ?thesis
      using Cons Some p m by (auto simp: shape3_def is_t3_def)
  qed
qed

lemma shape4_eq_Some:
  "shape4 x = Some (b, c, h, w) \<longleftrightarrow> 0 < b \<and> 0 < c \<and> 0 < h \<and> 0 < w \<and> is_t4 b c h w x"
proof (cases x)
  case Nil
  then show ?thesis by (auto simp: shape4_def is_t4_def)
next
  case (Cons t ts)
  show ?thesis
  proof (cases "shape3 t")
    case None
    then have "\<not> (0 < c \<and> 0 < h \<and> 0 < w \<and> is_t3 c h w t)"
      using shape3_eq_Some [of t c h w] by simp
    then show ?thesis
      using Cons None by (auto simp: shape4_def is_t4_def)
  next
    case (Some p)
    obtain c' h' w' where p: "p = (c', h', w')" by (cases p)
    have t: "0 < c'" "0 < h'" "0 < w'" "is_t3 c' h' w' t"
      using Some p shape3_eq_Some [of t c' h' w'] by simp_all
    have "0 < h \<Longrightarrow> 0 < w \<Longrightarrow> is_t3 c h w t \<Longrightarrow> shape3 t = Some (c, h, w)"
      using t shape3_eq_Some [of t c h w] by (auto simp: is_t3_def)
    then have "0 < h \<Longrightarrow> 0 < w \<Longrightarrow> is_t3 c h w t \<Longrightarrow> c = c' \<and> h = h' \<and> w = w'"
      using Some p by simp
    then show ?thesis
      using Cons Some p t by (auto simp: shape4_def is_t4_def)
  qed
qed

section \<open>The transfer functions are inverse outside two narrow bands\<close>

lemma powr_24_inverse: "0 < x \<Longrightarrow> (x powr 2.4) powr (1 / 2.4) = (x::real)"
  by (simp add: powr_powr)

lemma powr_inverse_24: "0 < x \<Longrightarrow> (x powr (1 / 2.4)) powr 2.4 = (x::real)"
  by (simp add: powr_powr)

lemma less_powr_24_iff:
  fixes a b :: real
  assumes "0 < a" "0 < b"
  shows "a < b powr 2.4 \<longleftrightarrow> a ^ 5 < b ^ 12"
proof -
  have "(b powr 2.4) powr 5 = b powr 12"
    by (simp add: powr_powr)
  also have "\<dots> = b ^ 12"
    using assms by simp
  finally have b: "(b powr 2.4) powr 5 = b ^ 12" .
  have a: "a powr 5 = a ^ 5"
    using assms by simp
  have "a < b powr 2.4 \<longleftrightarrow> a powr 5 < (b powr 2.4) powr 5"
    using assms powr_less_mono2 [of 5 a "b powr 2.4"] powr_less_cancel2 [of 5 a "b powr 2.4"]
    by auto
  then show ?thesis
    by (simp only: a b)
qed

lemma threshold_below: "(0.0031308::real) < (0.09545 / 1.055) powr 2.4"
  by (subst less_powr_24_iff) (simp_all add: divide_simps)

lemma forward_reverse_low:
  assumes "u \<le> 0.040449936"
  shows "gamma_forward (gamma_reverse u) = u"
  using assms by (simp add: gamma_forward_def gamma_reverse_def)

lemma forward_reverse_high:
  assumes "0.04045 < u"
  shows "gamma_forward (gamma_reverse u) = u"
proof -
  let ?x = "(u + 0.055) / 1.055"
  have x: "0.09545 / 1.055 < ?x"
    using assms by (simp add: divide_simps)
  then have pos: "0 < ?x"
    by (simp add: divide_simps)
  have "(0.09545 / 1.055) powr 2.4 < ?x powr 2.4"
    using x by (intro powr_less_mono2) simp_all
  then have "\<not> ?x powr 2.4 \<le> 0.0031308"
    using threshold_below by linarith
  then have "gamma_forward (gamma_reverse u) = 1.055 * (?x powr 2.4) powr (1 / 2.4) - 0.055"
    using assms by (simp add: gamma_forward_def gamma_reverse_def)
  also have "\<dots> = 1.055 * ?x - 0.055"
    using pos by (simp only: powr_24_inverse)
  also have "\<dots> = u"
    by (simp add: field_simps)
  finally show ?thesis .
qed

lemma reverse_forward_low:
  assumes "u \<le> 0.0031308"
  shows "gamma_reverse (gamma_forward u) = u"
  using assms by (simp add: gamma_forward_def gamma_reverse_def)

lemma reverse_forward_high:
  assumes "(0.09545 / 1.055) powr 2.4 < u"
  shows "gamma_reverse (gamma_forward u) = u"
proof -
  have u: "0.0031308 < u"
    using assms threshold_below by linarith
  have "(0::real) < 0.0031308"
    by simp
  with u have u0: "0 < u"
    by (rule less_trans [rotated])
  have "((0.09545 / 1.055) powr 2.4) powr (1 / 2.4) < u powr (1 / 2.4)"
    using assms by (intro powr_less_mono2) simp_all
  then have "0.09545 / 1.055 < u powr (1 / 2.4)"
    by (simp add: powr_powr)
  then have "0.04045 < 1.055 * u powr (1 / 2.4) - 0.055"
    by (simp add: divide_simps)
  then have "gamma_reverse (gamma_forward u)
      = ((1.055 * u powr (1 / 2.4) - 0.055 + 0.055) / 1.055) powr 2.4"
    using u by (simp add: gamma_forward_def gamma_reverse_def)
  also have "\<dots> = (u powr (1 / 2.4)) powr 2.4"
    by simp
  also have "\<dots> = u"
    using u0 by (simp only: powr_inverse_24)
  finally show ?thesis .
qed

section \<open>Loading and saving an image\<close>














text \<open>What \<open>save_image\<close> does with the image depends on the extension of the path: with
  an extension that is not registered the call raises; with an encoder for it and a path
  that can be written, the file decodes to whatever the encoder makes of the image.\<close>

lemma save_image_unknown_extension:
  assumes "to_pil_image array = Inr img"
    and "EXTENSION os (lower (snd (splitext filepath))) = None"
  shows "save_image os array filepath fs = Inl ValueError"
  using assms by (simp add: save_image_def)

lemma save_image_encoded:
  assumes "to_pil_image array = Inr img"
    and "EXTENSION os (lower (snd (splitext filepath))) = Some format"
    and "SAVE os (upper format) = Some save_handler"
    and "writable os filepath"
    and "save_handler img = Inr written"
  shows "save_image os array filepath fs = Inr (fs(filepath \<mapsto> written))"
  using assms by (simp add: save_image_def)

lemma save_image_no_extension:
  assumes "to_pil_image array = Inr img" and "EXTENSION os [] = None"
  shows "save_image os array ''out'' fs = Inl ValueError"
  using assms by (simp add: save_image_def splitext_def lower_def)


section \<open>The links, one sample at a time\<close>

lemma and_then_Inr [simp]: "and_then (Inr v) f = f v"
  by (simp add: and_then_def)

lemma and_then_Inl [simp]: "and_then (Inl e) f = Inl e"
  by (simp add: and_then_def)

lemma and_then_eq_Inr: "and_then r f = Inr v \<longleftrightarrow> (\<exists>u. r = Inr u \<and> f u = Inr v)"
  by (cases r) simp_all

lemma map2_map_same: "map2 f xs (map g xs) = map (\<lambda>x. f x (g x)) xs"
  by (induction xs) simp_all

text \<open>Regrouping a batch into one run of channels and cutting it into runs again gives
  the batch back.\<close>

lemma take_drop_concat:
  assumes "\<forall>xs\<in>set xss. length xs = n" and "g < length xss"
  shows "take n (drop (g * n) (concat xss)) = xss ! g"
  using assms
proof (induction xss arbitrary: g)
  case Nil
  then show ?case by simp
next
  case (Cons xs xss)
  show ?case
  proof (cases g)
    case 0
    then show ?thesis using Cons.prems by simp
  next
    case (Suc g')
    then show ?thesis using Cons by simp
  qed
qed

lemma unflatten_concat:
  assumes "\<forall>xs\<in>set xss. length xs = n"
  shows "unflatten (length xss) n (concat xss) = xss"
  by (rule nth_equalityI) (simp_all add: unflatten_def take_drop_concat [OF assms])

lemma length_pad_edge: "xs \<noteq> [] \<Longrightarrow> length (pad_edge p xs) = length xs + 2 * p"
  by (cases xs) (simp_all add: pad_edge_def)

lemma set_pad_edge: "set (pad_edge p xs) \<subseteq> set xs"
  by (cases xs) (auto simp: pad_edge_def)

lemma is_mat_pad:
  assumes "is_mat h w m" "0 < h" "0 < w"
  shows "is_mat (h + 2 * p) (w + 2 * p) (pad_edge p (map (pad_edge p) m))"
proof -
  have "m \<noteq> []" using assms by (auto simp: is_mat_def)
  then have "length (pad_edge p (map (pad_edge p) m)) = h + 2 * p"
    using assms by (simp add: length_pad_edge is_mat_def)
  moreover have "\<forall>r\<in>set (pad_edge p (map (pad_edge p) m)). length r = w + 2 * p"
  proof
    fix r assume "r \<in> set (pad_edge p (map (pad_edge p) m))"
    then have "r \<in> set (map (pad_edge p) m)"
      using set_pad_edge [of p "map (pad_edge p) m"] by (rule subsetD [rotated])
    then obtain r' where "r' \<in> set m" "r = pad_edge p r'" by auto
    moreover from this have "length r' = w" "r' \<noteq> []"
      using assms by (auto simp: is_mat_def list_all_iff)
    ultimately show "length r = w + 2 * p" by (simp add: length_pad_edge)
  qed
  ultimately show ?thesis by (simp add: is_mat_def list_all_iff)
qed

lemma is_mat_correlate: "is_mat oh ow (correlate kh kw oh ow xs ks)"
  by (simp add: correlate_def is_mat_def list_all_iff)

lemma length_concat_uniform:
  "\<forall>xs\<in>set xss. length xs = n \<Longrightarrow> length (concat xss) = length xss * n"
  by (induction xss) simp_all

lemma map2_conv_nth:
  "length xs = length ys \<Longrightarrow> map2 f xs ys = map (\<lambda>i. f (xs ! i) (ys ! i)) [0..<length xs]"
  by (rule nth_equalityI) simp_all

lemma demodulate_map:
  "demodulate eps m =
     map (map (\<lambda>k. map (map (map (\<lambda>v. v /
        sqrt (sum_list (map (\<lambda>m. sum_list (map sum_list m)) (map (map (map (\<lambda>v. v ^ 2))) k)) + eps)))) k)) m"
  by (simp add: demodulate_def demod_divisor_def sum_axes_234_def map2_map_same o_def)

lemma modulate_map:
  "modulate W y = map (\<lambda>ys. map (\<lambda>k. map2 (\<lambda>kc yc. map (map (\<lambda>v. v * yc)) kc) k ys) W) y"
  by (simp add: modulate_def)

lemma weights_per_sample:
  "(let mod_w = modulate (wdc_w l) y
    in if wdc_demod l then demodulate 0.00000001 mod_w else mod_w) = map (sample_weights l) y"
  by (simp add: sample_weights_def demodulate_map modulate_map o_def Let_def)

lemma is_t4_sample_weights:
  assumes "is_t4 cout cin k k (wdc_w l)" "length ys = cin"
  shows "is_t4 cout cin k k (sample_weights l ys)"
  using assms
  by (simp add: sample_weights_def demodulate_map modulate_map is_t4_def is_t3_def is_mat_def
      list_all_length Let_def)

lemma is_t3_concat:
  assumes "\<forall>t\<in>set xs. is_t3 c h w t"
  shows "is_t3 (length xs * c) h w (concat xs)"
proof -
  have "\<forall>t\<in>set xs. length t = c"
    using assms by (simp add: is_t3_def)
  then have "length (concat xs) = length xs * c"
    by (rule length_concat_uniform)
  moreover have "\<forall>m\<in>set (concat xs). is_mat h w m"
    using assms by (auto simp: is_t3_def list_all_iff)
  ultimately show ?thesis
    by (simp add: is_t3_def list_all_iff)
qed

text \<open>On a batch regrouped into the channel axis, the grouped convolution with one group
  for each sample convolves each sample with its own kernels.\<close>

lemma convolution_2d_grouped:
  assumes xs: "\<forall>t\<in>set xs. is_t3 cin h w t"
    and ws: "\<forall>t\<in>set ws. is_t4 cout cin k k t"
    and len: "length xs = B" "length ws = B"
    and pos: "0 < B" "0 < cin" "0 < cout" "0 < k" "k \<le> h" "k \<le> w"
  shows "convolution_2d [concat xs] (concat ws) B =
         Inr [concat (map2 (\<lambda>x wt. map (correlate k k (h - k + 1) (w - k + 1) x) wt) xs ws)]"
proof -
  have lx: "\<forall>t\<in>set xs. length t = cin"
    using xs by (simp add: is_t3_def)
  have lw: "\<forall>t\<in>set ws. length t = cout"
    using ws by (simp add: is_t4_def)
  have "is_t4 1 (B * cin) h w [concat xs]"
    using is_t3_concat [OF xs] len by (simp add: is_t4_def)
  then have sx: "shape4 [concat xs] = Some (1, B * cin, h, w)"
    using pos by (simp add: shape4_eq_Some)
  have "length (concat ws) = B * cout"
    using length_concat_uniform [OF lw] len by simp
  moreover have "\<forall>t\<in>set (concat ws). is_t3 cin k k t"
    using ws by (auto simp: is_t4_def list_all_iff)
  ultimately have "is_t4 (B * cout) cin k k (concat ws)"
    by (simp add: is_t4_def list_all_iff)
  then have sw: "shape4 (concat ws) = Some (B * cout, cin, k, k)"
    using pos by (simp add: shape4_eq_Some)
  define f where "f = correlate k k (h - k + 1) (w - k + 1)"
  have run: "\<And>g. g < B \<Longrightarrow>
      map (f (take cin (drop (g * cin) (concat xs)))) (take cout (drop (g * cout) (concat ws)))
      = map (f (xs ! g)) (ws ! g)"
    using take_drop_concat [OF lx] take_drop_concat [OF lw] len by simp
  have "map (\<lambda>g. map (f (take cin (drop (g * cin) (concat xs))))
          (take cout (drop (g * cout) (concat ws)))) [0..<B]
      = map (\<lambda>g. map (f (xs ! g)) (ws ! g)) [0..<B]"
    by (rule map_cong [OF refl]) (simp add: run)
  also have "\<dots> = map2 (\<lambda>x wt. map (f x) wt) xs ws"
    using len by (simp add: map2_conv_nth)
  finally have "map (\<lambda>g. map (f (take cin (drop (g * cin) (concat xs))))
          (take cout (drop (g * cout) (concat ws)))) [0..<B] = map2 (\<lambda>x wt. map (f x) wt) xs ws" .
  then show ?thesis
    using sx sw pos unfolding f_def by (simp add: convolution_2d_def mult.commute)
qed

lemma is_conv_ksize: "is_conv cin cout pw dm gain l \<Longrightarrow> wdc_ksize l = 2 * wdc_pad l + 1"
  by (simp add: is_conv_def split: if_splits)

lemma pad_concat: "pad [concat x] p = [concat (map (map (\<lambda>m. pad_edge p (map (pad_edge p) m))) x)]"
  by (simp add: pad_def map_concat)

lemma is_t3_pad:
  assumes "is_t3 c h w t" "0 < h" "0 < w"
  shows "is_t3 c (h + 2 * p) (w + 2 * p) (map (\<lambda>m. pad_edge p (map (pad_edge p) m)) t)"
  using assms by (simp add: is_t3_def list_all_iff is_mat_pad)

text \<open>The call of the layer on a batch is the list of the per-sample convolutions.\<close>

lemma conv_call_per_sample:
  assumes conv: "is_conv cin cout pw dm gain l"
    and x: "shape4 x = Some (B, cin, H, W)"
    and y: "shape2 y = Some (B, cin)"
  shows "WeightDemodulatedConvolution2D_call l x y = Inr (map2 (conv_sample l H W) x y)"
proof -
  define k where "k = wdc_ksize l"
  define p where "p = wdc_pad l"
  define pad2 where "pad2 = (\<lambda>m::tensor2. pad_edge p (map (pad_edge p) m))"
  define xs where "xs = map (map pad2) x"
  define ws where "ws = map (sample_weights l) y"
  have k: "k = 2 * p + 1"
    using is_conv_ksize [OF conv] by (simp add: k_def p_def)
  have l: "0 < cin" "0 < cout" "is_t4 cout cin k k (wdc_w l)" "length (wdc_b l) = cout"
    using conv unfolding is_conv_def k_def by blast+
  have xpos: "0 < B" "0 < H" "0 < W" and xt: "is_t4 B cin H W x"
    using x by (simp_all add: shape4_eq_Some)
  have ym: "is_mat B cin y"
    using y by (simp add: shape2_eq_Some)
  have xs_t: "\<forall>t\<in>set xs. is_t3 cin (H + 2 * p) (W + 2 * p) t"
    using xt xpos by (auto simp: xs_def pad2_def is_t4_def list_all_iff is_t3_pad)
  have ws_t: "\<forall>t\<in>set ws. is_t4 cout cin k k t"
    using ym l(3) by (auto simp: ws_def is_mat_def list_all_iff is_t4_sample_weights)
  have len: "length xs = B" "length ws = B"
    using xt ym by (simp_all add: xs_def ws_def is_t4_def is_mat_def)
  define zs where "zs = map2 (\<lambda>x wt. map (correlate k k H W x) wt) xs ws"
  have "convolution_2d [concat xs] (concat ws) B =
      Inr [concat (map2 (\<lambda>x wt. map (correlate k k (H + 2 * p - k + 1) (W + 2 * p - k + 1) x) wt) xs ws)]"
    using xpos l(1,2) k by (intro convolution_2d_grouped [OF xs_t ws_t len]) simp_all
  moreover have "H + 2 * p - k + 1 = H" "W + 2 * p - k + 1 = W"
    using k xpos by simp_all
  ultimately have conv2d: "convolution_2d [concat xs] (concat ws) B = Inr [concat zs]"
    by (simp only: zs_def)
  have zlen: "length zs = B" and zt: "\<forall>t\<in>set zs. is_t3 cout H W t"
    using len ws_t
    by (auto simp: zs_def is_t3_def is_t4_def list_all_iff is_mat_correlate set_zip)
  have "is_t4 1 (B * cout) H W [concat zs]"
    using is_t3_concat [OF zt] zlen by (simp add: is_t4_def)
  then have sh: "shape4 [concat zs] = Some (1, B * cout, H, W)"
    using xpos l by (simp add: shape4_eq_Some)
  have "\<forall>t\<in>set zs. length t = cout"
    using zt by (simp add: is_t3_def)
  then have unfl: "unflatten B cout (concat zs) = zs"
    using unflatten_concat [of zs cout] zlen by simp
  have "map (\<lambda>t. map2 (\<lambda>m bias. map (map (\<lambda>v. v + bias)) m) t (wdc_b l)) zs
      = map2 (conv_sample l H W) x y"
    using len xt ym
    by (intro nth_equalityI)
      (simp_all add: zs_def xs_def ws_def conv_sample_def k_def p_def pad2_def is_t4_def is_mat_def)
  then show ?thesis
    using x y l conv2d sh unfl weights_per_sample [of l y]
    by (simp add: WeightDemodulatedConvolution2D_call_def Let_def pad_concat
        k_def [symmetric] p_def [symmetric] pad2_def [symmetric] xs_def [symmetric] ws_def [symmetric])
qed

lemma shape4_append:
  assumes "shape4 x1 = Some (b1, c, h, w)" "shape4 x2 = Some (b2, c, h, w)"
  shows "shape4 (x1 @ x2) = Some (b1 + b2, c, h, w)"
  using assms by (auto simp: shape4_eq_Some is_t4_def)

lemma shape2_append:
  assumes "shape2 x1 = Some (b1, c)" "shape2 x2 = Some (b2, c)"
  shows "shape2 (x1 @ x2) = Some (b1 + b2, c)"
  using assms by (auto simp: shape2_eq_Some is_mat_def)

lemma shape4_length: "shape4 x = Some (b, c, h, w) \<Longrightarrow> length x = b"
  by (simp add: shape4_eq_Some is_t4_def)

lemma shape2_length: "shape2 x = Some (b, c) \<Longrightarrow> length x = b"
  by (simp add: shape2_eq_Some is_mat_def)

lemma EqualizedLinear_call_eq:
  assumes "is_mat c d (el_W l)" "length (el_b l) = c" "shape2 x = Some (B, d)"
  shows "EqualizedLinear_call l x =
     Inr (map (\<lambda>xs. map2 (\<lambda>row bias. sum_list (map2 (*) row xs) + bias) (el_W l) (el_b l)) x)"
  using assms by (simp add: EqualizedLinear_call_def)

lemma NoiseAdder_call_eq:
  assumes x: "shape4 x = Some (b, c, h, w)" and s: "length (na_s a) = c"
  shows "NoiseAdder_call a g x = Inr (map (\<lambda>n. noise_sample a h w (g n) (x ! n)) [0..<b])"
proof -
  define img where "img = (\<lambda>n. map (\<lambda>i. map (\<lambda>j. g n 0 i j) [0..<w]) [0..<h])"
  define sc where "sc = (\<lambda>n. map2 (\<lambda>m sc. map (map (\<lambda>v. v * sc)) m) (replicate c (img n)) (na_s a))"
  have xt: "is_t4 b c h w x" and pos: "0 < b" "0 < c" "0 < h" "0 < w"
    using x by (simp_all add: shape4_eq_Some)
  have n: "map (\<lambda>t. concat (map (replicate c) t)) (GaussianDistribution_call g b 1 h w)
      = map (\<lambda>n. replicate c (img n)) [0..<b]"
    by (simp add: GaussianDistribution_call_def tabulate4_def img_def)
  have scaled: "scale_axis1 (map (\<lambda>n. replicate c (img n)) [0..<b]) (na_s a) = map sc [0..<b]"
    by (simp add: scale_axis1_def sc_def)
  have "is_t4 b c h w (map sc [0..<b])"
    using s by (simp add: is_t4_def is_t3_def is_mat_def list_all_length sc_def img_def)
  then have "shape4 (map sc [0..<b]) = Some (b, c, h, w)"
    using pos by (simp add: shape4_eq_Some)
  then have "add4 x (map sc [0..<b]) = Inr (map2 (map2 (map2 (map2 (+)))) x (map sc [0..<b]))"
    using x by (simp add: add4_def)
  also have "map2 (map2 (map2 (map2 (+)))) x (map sc [0..<b])
      = map (\<lambda>n. noise_sample a h w (g n) (x ! n)) [0..<b]"
    using xt s by (intro nth_equalityI) (simp_all add: is_t4_def noise_sample_def sc_def img_def)
  finally show ?thesis
    using x s n scaled by (simp add: NoiseAdder_call_def Let_def)
qed

lemma is_t3_noise_sample:
  assumes "is_t3 c h w xs" "length (na_s a) = c"
  shows "is_t3 c h w (noise_sample a h w gn xs)"
  using assms by (simp add: noise_sample_def is_t3_def is_mat_def list_all_length)

lemma map2_tab: "map2 f (map X [0..<B]) (map Y [0..<B]) = map (\<lambda>n. f (X n) (Y n)) [0..<B]"
  by (rule nth_equalityI) simp_all

lemma shape4_tab:
  assumes "0 < B" "0 < c" "0 < h" "0 < w" "\<And>n. n < B \<Longrightarrow> is_t3 c h w (E n)"
  shows "shape4 (map E [0..<B]) = Some (B, c, h, w)"
  using assms by (simp add: shape4_eq_Some is_t4_def list_all_length)

lemma shape2_tab:
  assumes "0 < B" "0 < c" "\<And>n. n < B \<Longrightarrow> length (E n) = c"
  shows "shape2 (map E [0..<B]) = Some (B, c)"
  using assms by (simp add: shape2_eq_Some is_mat_def list_all_length)

lemma affine_tab:
  assumes "is_affine d c t" "0 < B" "\<And>n. n < B \<Longrightarrow> length (W n) = d"
  shows "StyleAffineTransform_call t (map W [0..<B]) = Inr (map (\<lambda>n. affine_sample t (W n)) [0..<B])"
proof -
  have "shape2 (map W [0..<B]) = Some (B, d)"
    using assms by (intro shape2_tab) (simp_all add: is_affine_def)
  then show ?thesis
    using assms(1)
    by (simp add: StyleAffineTransform_call_def EqualizedLinear_call_eq [where c = c and d = d and B = B]
        is_affine_def affine_sample_def o_def)
qed

lemma length_affine_sample: "is_affine d c t \<Longrightarrow> length (affine_sample t ws) = c"
  by (simp add: is_affine_def affine_sample_def is_mat_def)

lemma conv_tab:
  assumes "is_conv cin cout pw dm gain l" "0 < B" "0 < H" "0 < W"
    and "\<And>n. n < B \<Longrightarrow> is_t3 cin H W (X n)"
    and "\<And>n. n < B \<Longrightarrow> length (Y n) = cin"
  shows "WeightDemodulatedConvolution2D_call l (map X [0..<B]) (map Y [0..<B]) =
         Inr (map (\<lambda>n. conv_sample l H W (X n) (Y n)) [0..<B])"
proof -
  have cin: "0 < cin"
    using assms(1) by (simp add: is_conv_def)
  have "shape4 (map X [0..<B]) = Some (B, cin, H, W)"
    using assms cin by (intro shape4_tab) simp_all
  moreover have "shape2 (map Y [0..<B]) = Some (B, cin)"
    using assms cin by (intro shape2_tab) simp_all
  ultimately show ?thesis
    using conv_call_per_sample [OF assms(1)] by (simp add: map2_tab)
qed

lemma is_t3_conv_sample:
  assumes "is_conv cin cout pw dm gain l" "length ys = cin"
  shows "is_t3 cout H W (conv_sample l H W xs ys)"
proof -
  have "is_t4 cout cin (wdc_ksize l) (wdc_ksize l) (wdc_w l)" "length (wdc_b l) = cout"
    using assms(1) unfolding is_conv_def by blast+
  then have "length (sample_weights l ys) = cout" "length (wdc_b l) = cout"
    using is_t4_sample_weights [of cout cin "wdc_ksize l" l ys] assms(2) by (simp_all add: is_t4_def)
  then show ?thesis
    by (simp add: conv_sample_def is_t3_def list_all_length is_mat_correlate is_mat_def
        correlate_def)
qed

lemma noise_tab:
  assumes "length (na_s a) = c" "0 < B" "0 < c" "0 < h" "0 < w"
    and "\<And>n. n < B \<Longrightarrow> is_t3 c h w (X n)"
  shows "NoiseAdder_call a g (map X [0..<B]) = Inr (map (\<lambda>n. noise_sample a h w (g n) (X n)) [0..<B])"
proof -
  have "shape4 (map X [0..<B]) = Some (B, c, h, w)"
    using assms by (intro shape4_tab) simp_all
  then have "NoiseAdder_call a g (map X [0..<B])
      = Inr (map (\<lambda>n. noise_sample a h w (g n) (map X [0..<B] ! n)) [0..<B])"
    using assms(1) by (rule NoiseAdder_call_eq)
  also have "map (\<lambda>n. noise_sample a h w (g n) (map X [0..<B] ! n)) [0..<B]
      = map (\<lambda>n. noise_sample a h w (g n) (X n)) [0..<B]"
    by (rule map_cong [OF refl]) simp
  finally show ?thesis .
qed

lemma relu_tab: "LeakyRelu_call a (map X [0..<B]) = map (\<lambda>n. relu_sample a (X n)) [0..<B]"
  by (simp add: LeakyRelu_call_def map4_def relu_sample_def)

lemma is_t3_relu_sample: "is_t3 c h w (relu_sample a xs) = is_t3 c h w xs"
  by (simp add: relu_sample_def is_t3_def is_mat_def list_all_iff)

lemma upsample_tab:
  assumes "0 < B" "0 < c" "0 < h" "0 < w" "\<And>n. n < B \<Longrightarrow> is_t3 c h w (X n)"
  shows "Upsampler_call (map X [0..<B]) = Inr (map (\<lambda>n. upsample_sample h w (X n)) [0..<B])"
proof -
  have "shape4 (map X [0..<B]) = Some (B, c, h, w)"
    using assms by (intro shape4_tab) simp_all
  then show ?thesis
    using assms(3,4) by (simp add: Upsampler_call_def resize_images_def upsample_sample_def o_def)
qed

lemma is_t3_upsample_sample:
  "is_t3 c h w xs \<Longrightarrow> is_t3 c (h * 2) (w * 2) (upsample_sample h w xs)"
  by (simp add: upsample_sample_def is_t3_def is_mat_def list_all_iff interpolate_bilinear_def Let_def)

lemma add4_tab:
  assumes "0 < B" "0 < c" "0 < h" "0 < w"
    and "\<And>n. n < B \<Longrightarrow> is_t3 c h w (X n)" "\<And>n. n < B \<Longrightarrow> is_t3 c h w (Y n)"
  shows "add4 (map X [0..<B]) (map Y [0..<B]) = Inr (map (\<lambda>n. map2 (map2 (map2 (+))) (X n) (Y n)) [0..<B])"
proof -
  have "shape4 (map X [0..<B]) = Some (B, c, h, w)" "shape4 (map Y [0..<B]) = Some (B, c, h, w)"
    using assms by (simp_all add: shape4_tab)
  then show ?thesis
    by (simp add: add4_def map2_tab)
qed

lemma is_t3_add:
  assumes "is_t3 c h w xs" "is_t3 c h w ys"
  shows "is_t3 c h w (map2 (map2 (map2 (+))) xs ys)"
  using assms by (simp add: is_t3_def is_mat_def list_all_length)

lemma tab_nth: "length xs = B \<Longrightarrow> xs = map (\<lambda>n. xs ! n) [0..<B]"
  by (rule nth_equalityI) simp_all

text \<open>The call of a block on a batch is the list of the per-sample results: every step
  acts on the table of the values of the step before.\<close>

lemma skip_call_per_sample:
  assumes p: "is_skip d cin cout p"
    and x: "shape4 x = Some (B, cin, H, W)"
    and y: "shape4 y = Some (B, 3, H, W)"
    and w: "shape2 w = Some (B, d)"
  shows "SkipArchitecture_call p g1 g2 x y w =
         Inr (map (\<lambda>n. fst (skip_sample p H W (g1 n) (g2 n) (x ! n) (y ! n) (w ! n))) [0..<B],
              map (\<lambda>n. snd (skip_sample p H W (g1 n) (g2 n) (x ! n) (y ! n) (w ! n))) [0..<B])"
proof -
  have s1: "is_affine d cin (sa_s1 p)" and w1: "is_conv cin cout False True (sqrt 2) (sa_w1 p)"
    and n1: "length (na_s (sa_n1 p)) = cout" and s2: "is_affine d cout (sa_s2 p)"
    and w2: "is_conv cout cout False True (sqrt 2) (sa_w2 p)"
    and n2: "length (na_s (sa_n2 p)) = cout" and s3: "is_affine d cout (sa_s3 p)"
    and trgb: "is_conv cout 3 True False 1 (trgb_w (sa_trgb p))"
    using p unfolding is_skip_def by blast+
  have pos: "0 < B" "0 < cin" "0 < H" "0 < W" "0 < cout"
    using x s2 by (simp_all add: shape4_eq_Some is_affine_def)
  have xt: "\<And>n. n < B \<Longrightarrow> is_t3 cin H W (x ! n)"
    using x is_t4_nth [of B cin H W x] by (simp add: shape4_eq_Some)
  have yt: "\<And>n. n < B \<Longrightarrow> is_t3 3 H W (y ! n)"
    using y is_t4_nth [of B 3 H W y] by (simp add: shape4_eq_Some)
  have wt: "\<And>n. n < B \<Longrightarrow> length (w ! n) = d"
    using w is_mat_nth [of B d w] by (simp add: shape2_eq_Some)
  have xe: "x = map (\<lambda>n. x ! n) [0..<B]" and ye: "y = map (\<lambda>n. y ! n) [0..<B]"
    and we: "w = map (\<lambda>n. w ! n) [0..<B]"
    using x y w by (simp_all add: tab_nth shape4_length shape2_length)
  define H1 where "H1 = (\<lambda>n. upsample_sample H W (x ! n))"
  define Y1 where "Y1 = (\<lambda>n. affine_sample (sa_s1 p) (w ! n))"
  define H2 where "H2 = (\<lambda>n. conv_sample (sa_w1 p) (H * 2) (W * 2) (H1 n) (Y1 n))"
  define H3 where "H3 = (\<lambda>n. noise_sample (sa_n1 p) (H * 2) (W * 2) (g1 n) (H2 n))"
  define H4 where "H4 = (\<lambda>n. relu_sample (sa_a1 p) (H3 n))"
  define Y2 where "Y2 = (\<lambda>n. affine_sample (sa_s2 p) (w ! n))"
  define H5 where "H5 = (\<lambda>n. conv_sample (sa_w2 p) (H * 2) (W * 2) (H4 n) (Y2 n))"
  define H6 where "H6 = (\<lambda>n. noise_sample (sa_n2 p) (H * 2) (W * 2) (g2 n) (H5 n))"
  define H7 where "H7 = (\<lambda>n. relu_sample (sa_a2 p) (H6 n))"
  define U where "U = (\<lambda>n. upsample_sample H W (y ! n))"
  define Y3 where "Y3 = (\<lambda>n. affine_sample (sa_s3 p) (w ! n))"
  define R where "R = (\<lambda>n. conv_sample (trgb_w (sa_trgb p)) (H * 2) (W * 2) (H7 n) (Y3 n))"
  define A where "A = (\<lambda>n. map2 (map2 (map2 (+))) (U n) (R n))"
  have c1: "Upsampler_call (map (\<lambda>n. x ! n) [0..<B]) = Inr (map H1 [0..<B])"
    unfolding H1_def using pos xt by (intro upsample_tab [where c = cin]) simp_all
  have t1: "\<And>n. n < B \<Longrightarrow> is_t3 cin (H * 2) (W * 2) (H1 n)"
    unfolding H1_def using xt by (simp add: is_t3_upsample_sample)
  have c2: "StyleAffineTransform_call (sa_s1 p) (map (\<lambda>n. w ! n) [0..<B]) = Inr (map Y1 [0..<B])"
    unfolding Y1_def using pos wt by (intro affine_tab [OF s1]) simp_all
  have l2: "\<And>n. length (Y1 n) = cin"
    unfolding Y1_def by (rule length_affine_sample [OF s1])
  have c3: "WeightDemodulatedConvolution2D_call (sa_w1 p) (map H1 [0..<B]) (map Y1 [0..<B]) = Inr (map H2 [0..<B])"
    unfolding H2_def using pos t1 l2 by (intro conv_tab [OF w1]) simp_all
  have t3: "\<And>n. is_t3 cout (H * 2) (W * 2) (H2 n)"
    unfolding H2_def by (rule is_t3_conv_sample [OF w1 l2])
  have c4: "NoiseAdder_call (sa_n1 p) g1 (map H2 [0..<B]) = Inr (map H3 [0..<B])"
    unfolding H3_def using pos t3 by (intro noise_tab [OF n1]) simp_all
  have t4: "\<And>n. is_t3 cout (H * 2) (W * 2) (H4 n)"
    unfolding H4_def H3_def using t3 n1 by (simp add: is_t3_relu_sample is_t3_noise_sample)
  have c5: "LeakyRelu_call (sa_a1 p) (map H3 [0..<B]) = map H4 [0..<B]"
    unfolding H4_def by (rule relu_tab)
  have c6: "StyleAffineTransform_call (sa_s2 p) (map (\<lambda>n. w ! n) [0..<B]) = Inr (map Y2 [0..<B])"
    unfolding Y2_def using pos wt by (intro affine_tab [OF s2]) simp_all
  have l6: "\<And>n. length (Y2 n) = cout"
    unfolding Y2_def by (rule length_affine_sample [OF s2])
  have c7: "WeightDemodulatedConvolution2D_call (sa_w2 p) (map H4 [0..<B]) (map Y2 [0..<B]) = Inr (map H5 [0..<B])"
    unfolding H5_def using pos t4 l6 by (intro conv_tab [OF w2]) simp_all
  have t7: "\<And>n. is_t3 cout (H * 2) (W * 2) (H5 n)"
    unfolding H5_def by (rule is_t3_conv_sample [OF w2 l6])
  have c8: "NoiseAdder_call (sa_n2 p) g2 (map H5 [0..<B]) = Inr (map H6 [0..<B])"
    unfolding H6_def using pos t7 by (intro noise_tab [OF n2]) simp_all
  have t8: "\<And>n. is_t3 cout (H * 2) (W * 2) (H7 n)"
    unfolding H7_def H6_def using t7 n2 by (simp add: is_t3_relu_sample is_t3_noise_sample)
  have c9: "LeakyRelu_call (sa_a2 p) (map H6 [0..<B]) = map H7 [0..<B]"
    unfolding H7_def by (rule relu_tab)
  have c10: "Upsampler_call (map (\<lambda>n. y ! n) [0..<B]) = Inr (map U [0..<B])"
    unfolding U_def using pos yt by (intro upsample_tab [where c = 3]) simp_all
  have t10: "\<And>n. n < B \<Longrightarrow> is_t3 3 (H * 2) (W * 2) (U n)"
    unfolding U_def using yt by (simp add: is_t3_upsample_sample)
  have c11: "StyleAffineTransform_call (sa_s3 p) (map (\<lambda>n. w ! n) [0..<B]) = Inr (map Y3 [0..<B])"
    unfolding Y3_def using pos wt by (intro affine_tab [OF s3]) simp_all
  have l11: "\<And>n. length (Y3 n) = cout"
    unfolding Y3_def by (rule length_affine_sample [OF s3])
  have c12: "ToRGB_call (sa_trgb p) (map H7 [0..<B]) (map Y3 [0..<B]) = Inr (map R [0..<B])"
    unfolding R_def ToRGB_call_def using pos t8 l11 by (intro conv_tab [OF trgb]) simp_all
  have t12: "\<And>n. is_t3 3 (H * 2) (W * 2) (R n)"
    unfolding R_def by (rule is_t3_conv_sample [OF trgb l11])
  have c13: "add4 (map U [0..<B]) (map R [0..<B]) = Inr (map A [0..<B])"
    unfolding A_def using pos t10 t12 by (intro add4_tab [where c = 3 and h = "H * 2" and w = "W * 2"]) simp_all
  have "SkipArchitecture_call p g1 g2 (map (\<lambda>n. x ! n) [0..<B]) (map (\<lambda>n. y ! n) [0..<B]) (map (\<lambda>n. w ! n) [0..<B])
      = Inr (map H7 [0..<B], map A [0..<B])"
    by (simp add: SkipArchitecture_call_def c1 c2 c3 c4 c5 c6 c7 c8 c9 c10 c11 c12 c13)
  moreover have "\<And>n. skip_sample p H W (g1 n) (g2 n) (x ! n) (y ! n) (w ! n) = (H7 n, A n)"
    by (simp add: skip_sample_def Let_def A_def R_def Y3_def U_def H7_def H6_def H5_def Y2_def H4_def
        H3_def H2_def Y1_def H1_def)
  ultimately show ?thesis
    using xe ye we by simp
qed

lemma initial_call_per_sample:
  assumes p: "is_initial d cin cout p"
    and w: "shape2 w = Some (B, d)"
  shows "InitialSkipArchitecture_call p g1 w =
         Inr (map (\<lambda>n. fst (initial_sample p (g1 n) (w ! n))) [0..<B],
              map (\<lambda>n. snd (initial_sample p (g1 n) (w ! n))) [0..<B])"
proof -
  have c1: "is_t3 cin 4 4 (isa_c1 p)" and s1: "is_affine d cin (isa_s1 p)"
    and w1: "is_conv cin cout False True (sqrt 2) (isa_w1 p)"
    and n1: "length (na_s (isa_n1 p)) = cout" and s2: "is_affine d cout (isa_s2 p)"
    and trgb: "is_conv cout 3 True False 1 (trgb_w (isa_trgb p))"
    using p unfolding is_initial_def by blast+
  have pos: "0 < B" "0 < cin" "0 < cout"
    using w s1 s2 by (simp_all add: shape2_eq_Some is_affine_def)
  have wt: "\<And>n. n < B \<Longrightarrow> length (w ! n) = d"
    using w is_mat_nth [of B d w] by (simp add: shape2_eq_Some)
  have len: "length w = B"
    using w by (rule shape2_length)
  have we: "w = map (\<lambda>n. w ! n) [0..<B]"
    using len by (rule tab_nth)
  define Y1 where "Y1 = (\<lambda>n. affine_sample (isa_s1 p) (w ! n))"
  define H3 where "H3 = (\<lambda>n. conv_sample (isa_w1 p) 4 4 (isa_c1 p) (Y1 n))"
  define H4 where "H4 = (\<lambda>n. noise_sample (isa_n1 p) 4 4 (g1 n) (H3 n))"
  define H5 where "H5 = (\<lambda>n. relu_sample (isa_a1 p) (H4 n))"
  define Y2 where "Y2 = (\<lambda>n. affine_sample (isa_s2 p) (w ! n))"
  define R where "R = (\<lambda>n. conv_sample (trgb_w (isa_trgb p)) 4 4 (H5 n) (Y2 n))"
  have h2: "replicate B (isa_c1 p) = map (\<lambda>n. isa_c1 p) [0..<B]"
    by (simp add: map_replicate_const)
  have e1: "StyleAffineTransform_call (isa_s1 p) w = Inr (map Y1 [0..<B])"
    unfolding Y1_def using pos wt by (subst we) (intro affine_tab [OF s1], simp_all)
  have l1: "\<And>n. length (Y1 n) = cin"
    unfolding Y1_def by (rule length_affine_sample [OF s1])
  have e2: "WeightDemodulatedConvolution2D_call (isa_w1 p) (map (\<lambda>n. isa_c1 p) [0..<B]) (map Y1 [0..<B])
      = Inr (map H3 [0..<B])"
    unfolding H3_def using pos c1 l1 by (intro conv_tab [OF w1]) simp_all
  have t2: "\<And>n. is_t3 cout 4 4 (H3 n)"
    unfolding H3_def by (rule is_t3_conv_sample [OF w1 l1])
  have e3: "NoiseAdder_call (isa_n1 p) g1 (map H3 [0..<B]) = Inr (map H4 [0..<B])"
    unfolding H4_def using pos t2 by (intro noise_tab [OF n1]) simp_all
  have t4: "\<And>n. is_t3 cout 4 4 (H5 n)"
    unfolding H5_def H4_def using t2 n1 by (simp add: is_t3_relu_sample is_t3_noise_sample)
  have e4: "LeakyRelu_call (isa_a1 p) (map H4 [0..<B]) = map H5 [0..<B]"
    unfolding H5_def by (rule relu_tab)
  have e5: "StyleAffineTransform_call (isa_s2 p) w = Inr (map Y2 [0..<B])"
    unfolding Y2_def using pos wt by (subst we) (intro affine_tab [OF s2], simp_all)
  have l5: "\<And>n. length (Y2 n) = cout"
    unfolding Y2_def by (rule length_affine_sample [OF s2])
  have e6: "ToRGB_call (isa_trgb p) (map H5 [0..<B]) (map Y2 [0..<B]) = Inr (map R [0..<B])"
    unfolding R_def ToRGB_call_def using pos t4 l5 by (intro conv_tab [OF trgb]) simp_all
  have "InitialSkipArchitecture_call p g1 w = Inr (map H5 [0..<B], map R [0..<B])"
    by (simp add: InitialSkipArchitecture_call_def Let_def len h2 e1 e2 e3 e4 e5 e6)
  moreover have "\<And>n. initial_sample p (g1 n) (w ! n) = (H5 n, R n)"
    by (simp add: initial_sample_def Let_def R_def Y2_def H5_def H4_def H3_def Y1_def)
  ultimately show ?thesis
    by simp
qed

text \<open>
  Batches with exact sums. The call of a layer or of a block on the concatenation of two
  batches returns the concatenation of what it returns on each of them, the draws of
  the second batch being those of its samples in the concatenated one; and a sample run
  alone gives its entry of the batch's result. These are statements about exact
  arithmetic: see \<open>convolution_2d\<close> for the sums of the library.
\<close>

lemma tab_append:
  "map E [0..<a + b] = map E [0..<a] @ map (\<lambda>n. E (a + n)) [0..<b]"
  by (rule nth_equalityI) (auto simp: nth_append)

lemma conv_batch_append:
  assumes l: "is_conv cin cout pw dm gain l"
    and x: "shape4 x1 = Some (n1, cin, H, W)" "shape4 x2 = Some (n2, cin, H, W)"
    and y: "shape2 y1 = Some (n1, cin)" "shape2 y2 = Some (n2, cin)"
  shows "\<exists>h1 h2.
           length h1 = n1 \<and>
           WeightDemodulatedConvolution2D_call l x1 y1 = Inr h1 \<and>
           WeightDemodulatedConvolution2D_call l x2 y2 = Inr h2 \<and>
           WeightDemodulatedConvolution2D_call l (x1 @ x2) (y1 @ y2) = Inr (h1 @ h2)"
proof -
  have "length x1 = length y1"
    using x(1) y(1) by (simp add: shape4_length shape2_length)
  then have "map2 (conv_sample l H W) (x1 @ x2) (y1 @ y2)
      = map2 (conv_sample l H W) x1 y1 @ map2 (conv_sample l H W) x2 y2"
    by simp
  moreover have "length (map2 (conv_sample l H W) x1 y1) = n1"
    using x(1) y(1) by (simp add: shape4_length shape2_length)
  ultimately show ?thesis
    using conv_call_per_sample [OF l x(1) y(1)] conv_call_per_sample [OF l x(2) y(2)]
      conv_call_per_sample [OF l shape4_append [OF x] shape2_append [OF y]]
    by simp
qed

lemma conv_single_sample:
  assumes l: "is_conv cin cout pw dm gain l"
    and x: "shape4 x = Some (B, cin, H, W)"
    and y: "shape2 y = Some (B, cin)"
    and n: "n < B"
  shows "\<exists>h. WeightDemodulatedConvolution2D_call l x y = Inr h \<and>
             WeightDemodulatedConvolution2D_call l [x ! n] [y ! n] = Inr [h ! n]"
proof -
  have len: "length x = B" "length y = B"
    using x y by (simp_all add: shape4_length shape2_length)
  have "is_t3 cin H W (x ! n)" "0 < cin" "0 < H" "0 < W"
    using x n is_t4_nth [of B cin H W x n] by (simp_all add: shape4_eq_Some)
  then have x1: "shape4 [x ! n] = Some (1, cin, H, W)"
    by (simp add: shape4_eq_Some is_t4_def)
  have "length (y ! n) = cin" "0 < cin"
    using y n is_mat_nth [of B cin y n] by (simp_all add: shape2_eq_Some)
  then have y1: "shape2 [y ! n] = Some (1, cin)"
    by (simp add: shape2_eq_Some is_mat_def)
  have "map2 (conv_sample l H W) x y ! n = conv_sample l H W (x ! n) (y ! n)"
    using len n by simp
  then show ?thesis
    using conv_call_per_sample [OF l x y] conv_call_per_sample [OF l x1 y1] by simp
qed

lemma initial_batch_append:
  assumes p: "is_initial d cin cout p"
    and w: "shape2 w1 = Some (n1, d)" "shape2 w2 = Some (n2, d)"
  shows "\<exists>f1 r1 f2 r2.
           length f1 = n1 \<and> length r1 = n1 \<and>
           InitialSkipArchitecture_call p g w1 = Inr (f1, r1) \<and>
           InitialSkipArchitecture_call p (\<lambda>n. g (n1 + n)) w2 = Inr (f2, r2) \<and>
           InitialSkipArchitecture_call p g (w1 @ w2) = Inr (f1 @ f2, r1 @ r2)"
proof -
  have len: "length w1 = n1"
    using w(1) by (rule shape2_length)
  show ?thesis
    using initial_call_per_sample [OF p w(1), of g]
      initial_call_per_sample [OF p w(2), of "\<lambda>n. g (n1 + n)"]
      initial_call_per_sample [OF p shape2_append [OF w], of g]
    by (simp add: tab_append len nth_append)
qed

lemma skip_batch_append:
  assumes p: "is_skip d cin cout p"
    and x: "shape4 x1 = Some (n1, cin, H, W)" "shape4 x2 = Some (n2, cin, H, W)"
    and y: "shape4 y1 = Some (n1, 3, H, W)" "shape4 y2 = Some (n2, 3, H, W)"
    and w: "shape2 w1 = Some (n1, d)" "shape2 w2 = Some (n2, d)"
  shows "\<exists>f1 r1 f2 r2.
           length f1 = n1 \<and> length r1 = n1 \<and>
           SkipArchitecture_call p g1 g2 x1 y1 w1 = Inr (f1, r1) \<and>
           SkipArchitecture_call p (\<lambda>n. g1 (n1 + n)) (\<lambda>n. g2 (n1 + n)) x2 y2 w2 = Inr (f2, r2) \<and>
           SkipArchitecture_call p g1 g2 (x1 @ x2) (y1 @ y2) (w1 @ w2) = Inr (f1 @ f2, r1 @ r2)"
proof -
  have len: "length w1 = n1" "length x1 = n1" "length y1 = n1"
    using w(1) x(1) y(1) by (simp_all add: shape2_length shape4_length)
  show ?thesis
    using skip_call_per_sample [OF p x(1) y(1) w(1), of g1 g2]
      skip_call_per_sample [OF p x(2) y(2) w(2), of "\<lambda>n. g1 (n1 + n)" "\<lambda>n. g2 (n1 + n)"]
      skip_call_per_sample [OF p shape4_append [OF x] shape4_append [OF y] shape2_append [OF w], of g1 g2]
    by (simp add: tab_append len nth_append)
qed

section \<open>Shapes of the results, steps of a block, demodulation\<close>

lemma is_conv_init:
  assumes "WeightDemodulatedConvolution2D_init cin cout pw dm gain g = Inr l" "0 < cout"
  shows "is_conv cin cout pw dm gain l"
  using assms
  by (auto simp: WeightDemodulatedConvolution2D_init_def is_conv_def Let_def
      tabulate4_def is_t4_def is_t3_def is_mat_def list_all_iff
      split: if_splits)

lemma shape4_conv_samples:
  assumes l: "is_conv cin cout pw dm gain l"
    and x: "shape4 x = Some (B, cin, H, W)"
    and y: "shape2 y = Some (B, cin)"
  shows "shape4 (map2 (conv_sample l H W) x y) = Some (B, cout, H, W)"
proof -
  have pos: "0 < B" "0 < H" "0 < W" "0 < cout"
    using x l by (simp_all add: shape4_eq_Some is_conv_def)
  have len: "length x = B" "length y = B"
    using x y by (simp_all add: shape4_length shape2_length)
  have "\<And>n. n < B \<Longrightarrow> length (y ! n) = cin"
    using y is_mat_nth [of B cin y] by (simp add: shape2_eq_Some)
  then have "\<And>n. n < B \<Longrightarrow> is_t3 cout H W (conv_sample l H W (x ! n) (y ! n))"
    using is_t3_conv_sample [OF l] by simp
  then have "is_t4 B cout H W (map2 (conv_sample l H W) x y)"
    using len by (simp add: is_t4_def list_all_length)
  then show ?thesis
    using pos by (simp add: shape4_eq_Some)
qed

lemma shape4_pad_group:
  assumes x: "shape4 x = Some (B, cin, H, W)"
  shows "shape4 (pad [concat x] p) = Some (1, B * cin, H + 2 * p, W + 2 * p)"
proof -
  have pos: "0 < B" "0 < cin" "0 < H" "0 < W" and xt: "is_t4 B cin H W x"
    using x by (simp_all add: shape4_eq_Some)
  have "\<forall>t\<in>set (map (map (\<lambda>m. pad_edge p (map (pad_edge p) m))) x). is_t3 cin (H + 2 * p) (W + 2 * p) t"
    using xt pos by (auto simp: is_t4_def list_all_iff is_t3_pad)
  then have "is_t3 (B * cin) (H + 2 * p) (W + 2 * p) (concat (map (map (\<lambda>m. pad_edge p (map (pad_edge p) m))) x))"
    using is_t3_concat [of "map (map (\<lambda>m. pad_edge p (map (pad_edge p) m))) x" cin "H + 2 * p" "W + 2 * p"] xt
    by (simp add: is_t4_def)
  then show ?thesis
    using pos by (simp add: pad_concat shape4_eq_Some is_t4_def)
qed

lemma is_t3_initial_sample:
  assumes p: "is_initial d cin cout p"
  shows "is_t3 cout 4 4 (fst (initial_sample p gn ws))"
    and "is_t3 3 4 4 (snd (initial_sample p gn ws))"
proof -
  have s1: "is_affine d cin (isa_s1 p)"
    and w1: "is_conv cin cout False True (sqrt 2) (isa_w1 p)"
    and n1: "length (na_s (isa_n1 p)) = cout" and s2: "is_affine d cout (isa_s2 p)"
    and trgb: "is_conv cout 3 True False 1 (trgb_w (isa_trgb p))"
    using p unfolding is_initial_def by blast+
  show "is_t3 cout 4 4 (fst (initial_sample p gn ws))"
    using is_t3_conv_sample [OF w1 length_affine_sample [OF s1]] n1
    by (simp add: initial_sample_def Let_def is_t3_relu_sample is_t3_noise_sample)
  show "is_t3 3 4 4 (snd (initial_sample p gn ws))"
    using is_t3_conv_sample [OF trgb length_affine_sample [OF s2]]
    by (simp add: initial_sample_def Let_def)
qed

lemma is_t3_skip_sample:
  assumes p: "is_skip d cin cout p" and ys: "is_t3 3 H W ys"
  shows "is_t3 cout (H * 2) (W * 2) (fst (skip_sample p H W gn1 gn2 xs ys ws))"
    and "is_t3 3 (H * 2) (W * 2) (snd (skip_sample p H W gn1 gn2 xs ys ws))"
proof -
  have n2: "length (na_s (sa_n2 p)) = cout" and s2: "is_affine d cout (sa_s2 p)"
    and w2: "is_conv cout cout False True (sqrt 2) (sa_w2 p)"
    and s3: "is_affine d cout (sa_s3 p)"
    and trgb: "is_conv cout 3 True False 1 (trgb_w (sa_trgb p))"
    using p unfolding is_skip_def by blast+
  show "is_t3 cout (H * 2) (W * 2) (fst (skip_sample p H W gn1 gn2 xs ys ws))"
    using is_t3_conv_sample [OF w2 length_affine_sample [OF s2]] n2
    by (simp add: skip_sample_def Let_def is_t3_relu_sample is_t3_noise_sample)
  show "is_t3 3 (H * 2) (W * 2) (snd (skip_sample p H W gn1 gn2 xs ys ws))"
    using is_t3_conv_sample [OF trgb length_affine_sample [OF s3]] is_t3_upsample_sample [OF ys]
    by (simp add: skip_sample_def Let_def is_t3_add)
qed

lemma initial_call_shapes:
  assumes p: "is_initial d cin cout p" and w: "shape2 w = Some (B, d)"
  shows "\<exists>f r. InitialSkipArchitecture_call p g1 w = Inr (f, r) \<and>
               shape4 f = Some (B, cout, 4, 4) \<and> shape4 r = Some (B, 3, 4, 4)"
proof -
  have "0 < B" "0 < cout"
    using w p by (simp_all add: shape2_eq_Some is_initial_def is_conv_def)
  then show ?thesis
    using initial_call_per_sample [OF p w, of g1] is_t3_initial_sample [OF p]
    by (simp add: shape4_tab)
qed

lemma skip_call_shapes:
  assumes p: "is_skip d cin cout p"
    and x: "shape4 x = Some (B, cin, H, W)"
    and y: "shape4 y = Some (B, 3, H, W)"
    and w: "shape2 w = Some (B, d)"
  shows "\<exists>f r. SkipArchitecture_call p g1 g2 x y w = Inr (f, r) \<and>
               shape4 f = Some (B, cout, H * 2, W * 2) \<and> shape4 r = Some (B, 3, H * 2, W * 2)"
proof -
  have pos: "0 < B" "0 < H" "0 < W" "0 < cout"
    using x p by (simp_all add: shape4_eq_Some is_skip_def is_conv_def)
  have yt: "\<And>n. n < B \<Longrightarrow> is_t3 3 H W (y ! n)"
    using y is_t4_nth [of B 3 H W y] by (simp add: shape4_eq_Some)
  show ?thesis
    using skip_call_per_sample [OF p x y w, of g1 g2] is_t3_skip_sample [OF p yt] pos
    by (simp add: shape4_tab)
qed

lemma is_conv_example:
  "0 < cin \<Longrightarrow> 0 < cout \<Longrightarrow> is_conv cin cout pw dm gain (example_conv cin cout pw dm gain)"
  by (simp add: is_conv_def example_conv_def Let_def is_t4_def is_t3_def is_mat_def list_all_iff)

lemma is_affine_example: "0 < d \<Longrightarrow> 0 < c \<Longrightarrow> is_affine d c (example_affine d c)"
  by (simp add: is_affine_def example_affine_def is_mat_def list_all_iff)

lemma is_initial_example:
  "0 < d \<Longrightarrow> 0 < cin \<Longrightarrow> 0 < cout \<Longrightarrow> is_initial d cin cout (example_initial d cin cout)"
  by (simp add: is_initial_def example_initial_def is_conv_example is_affine_example
      is_t3_def is_mat_def list_all_iff)

lemma is_skip_example:
  "0 < d \<Longrightarrow> 0 < cin \<Longrightarrow> 0 < cout \<Longrightarrow> is_skip d cin cout (example_skip d cin cout)"
  by (simp add: is_skip_def example_skip_def is_conv_example is_affine_example)

lemma shape2_replicate: "0 < b \<Longrightarrow> 0 < c \<Longrightarrow> shape2 (replicate b (replicate c v)) = Some (b, c)"
  by (simp add: shape2_eq_Some is_mat_def list_all_iff)

text \<open>A call of the block that returns has gone through every step of the source.\<close>

lemma skip_call_steps:
  assumes "SkipArchitecture_call p g1 g2 x y w = Inr (f, r)"
  shows "\<exists>h1 y1 h2 h3 y2 h5 h6 up_y y3 rgb.
           Upsampler_call x = Inr h1 \<and>
           StyleAffineTransform_call (sa_s1 p) w = Inr y1 \<and>
           WeightDemodulatedConvolution2D_call (sa_w1 p) h1 y1 = Inr h2 \<and>
           NoiseAdder_call (sa_n1 p) g1 h2 = Inr h3 \<and>
           StyleAffineTransform_call (sa_s2 p) w = Inr y2 \<and>
           WeightDemodulatedConvolution2D_call (sa_w2 p) (LeakyRelu_call (sa_a1 p) h3) y2 = Inr h5 \<and>
           NoiseAdder_call (sa_n2 p) g2 h5 = Inr h6 \<and>
           f = LeakyRelu_call (sa_a2 p) h6 \<and>
           Upsampler_call y = Inr up_y \<and>
           StyleAffineTransform_call (sa_s3 p) w = Inr y3 \<and>
           ToRGB_call (sa_trgb p) f y3 = Inr rgb \<and>
           add4 up_y rgb = Inr r"
  using assms by (auto simp: SkipArchitecture_call_def and_then_eq_Inr Let_def)

lemma Upsampler_call_shape:
  assumes "shape4 y = Some (B, c, H, W)" "Upsampler_call y = Inr u"
  shows "shape4 u = Some (B, c, H * 2, W * 2)"
proof -
  have pos: "0 < B" "0 < c" "0 < H" "0 < W" and yt: "is_t4 B c H W y"
    using assms(1) by (simp_all add: shape4_eq_Some)
  have u: "u = map (map (interpolate_bilinear H W (H * 2) (W * 2))) y"
    using assms pos by (simp add: Upsampler_call_def resize_images_def)
  have "is_t4 B c (H * 2) (W * 2) u"
    using yt unfolding u
    by (simp add: is_t4_def is_t3_def is_mat_def list_all_iff interpolate_bilinear_def Let_def)
  then show ?thesis
    using pos by (simp add: shape4_eq_Some)
qed

lemma add4_nth:
  assumes "add4 a b = Inr r" "shape4 a = Some (B, c, h, w)" "n < B" "k < c" "i < h" "j < w"
  shows "r ! n ! k ! i ! j = a ! n ! k ! i ! j + b ! n ! k ! i ! j"
proof -
  have sb: "shape4 b = Some (B, c, h, w)" and r: "r = map2 (map2 (map2 (map2 (+)))) a b"
    using assms(1,2) by (auto simp: add4_def split: if_splits)
  have at: "is_t4 B c h w a" and bt: "is_t4 B c h w b"
    using assms(2) sb by (simp_all add: shape4_eq_Some)
  have l1: "length a = B" "length b = B"
    using at bt by (simp_all add: is_t4_def)
  have a3: "is_t3 c h w (a ! n)" and b3: "is_t3 c h w (b ! n)"
    using at bt assms(3) by (simp_all add: is_t4_nth)
  have l2: "length (a ! n) = c" "length (b ! n) = c"
    using a3 b3 by (simp_all add: is_t3_def)
  have a2: "is_mat h w (a ! n ! k)" and b2: "is_mat h w (b ! n ! k)"
    using a3 b3 assms(4) by (simp_all add: is_t3_nth)
  have l3: "length (a ! n ! k) = h" "length (b ! n ! k) = h"
    using a2 b2 by (simp_all add: is_mat_def)
  have l4: "length (a ! n ! k ! i) = w" "length (b ! n ! k ! i) = w"
    using a2 b2 assms(5) by (simp_all add: is_mat_nth)
  show ?thesis
    unfolding r using assms(3-6) l1 l2 l3 l4 by simp
qed

lemma add4_shape:
  assumes "add4 a b = Inr r"
  shows "shape4 b = shape4 a"
  using assms by (auto simp: add4_def split: if_splits)

lemma sum_squares_nonneg: "0 \<le> sum_squares k"
  by (auto simp: sum_squares_def intro!: sum_list_nonneg)

lemma sum_list_map_divide:
  fixes f :: "'a \<Rightarrow> real"
  shows "sum_list (map (\<lambda>x. f x / c) xs) = sum_list (map f xs) / c"
  by (induction xs) (simp_all add: add_divide_distrib)

lemma sum_squares_divide:
  "sum_squares (map (map (map (\<lambda>v. v / d))) k) = sum_squares k / d ^ 2"
proof -
  have row: "\<And>r. sum_list (map (\<lambda>v. (v / d) ^ 2) r) = sum_list (map (\<lambda>v. v ^ 2) r) / d ^ 2"
    by (simp add: power_divide sum_list_map_divide)
  have mat: "\<And>m. sum_list (map (\<lambda>r. sum_list (map (\<lambda>v. (v / d) ^ 2) r)) m)
      = sum_list (map (\<lambda>r. sum_list (map (\<lambda>v. v ^ 2) r)) m) / d ^ 2"
    by (simp add: row sum_list_map_divide)
  show ?thesis
    by (simp add: sum_squares_def o_def mat sum_list_map_divide)
qed

lemma demod_divisor_nth:
  assumes "n < length m" "o' < length (m ! n)"
  shows "demod_divisor eps m ! n ! o' = sqrt (sum_squares (m ! n ! o') + eps)"
  using assms by (simp add: demod_divisor_def sum_axes_234_def sum_squares_def)

lemma demodulate_nth:
  assumes "n < length m" "o' < length (m ! n)"
  shows "demodulate eps m ! n ! o' =
         map (map (map (\<lambda>v. v / sqrt (sum_squares (m ! n ! o') + eps)))) (m ! n ! o')"
  using assms by (simp add: demodulate_map sum_squares_def)

lemma modulate_ones:
  assumes "is_t4 cout cin k k W" "n < B" "o' < cout"
  shows "modulate W (replicate B (replicate cin 1)) ! n ! o' = W ! o'"
proof -
  have "is_t3 cin k k (W ! o')"
    using assms by (simp add: is_t4_nth)
  then have len: "length (W ! o') = cin"
    by (simp add: is_t3_def)
  have "map2 (\<lambda>kc yc. map (map (\<lambda>v. v * yc)) kc) (W ! o') (replicate cin (1::real)) = W ! o'"
    using len by (intro nth_equalityI) simp_all
  then show ?thesis
    using assms by (simp add: modulate_def is_t4_def)
qed

lemma le_sqrt_unit:
  assumes "0 \<le> t" "t \<le> 1"
  shows "t \<le> sqrt t"
proof -
  have "sqrt t \<le> 1"
    using assms(2) by simp
  then have "sqrt t * sqrt t \<le> sqrt t * 1"
    using assms(1) by (intro mult_left_mono) simp_all
  then show ?thesis
    using assms(1) by simp
qed

lemma frac_bound:
  fixes S e :: real
  assumes "0 < S" "0 < e"
  shows "1 - e / S < S / (S + e)"
proof -
  have "(S - e) * (S + e) < S * S"
    using assms by (simp add: algebra_simps)
  then have "(S - e) / S < S / (S + e)"
    using assms by (simp add: field_simps)
  then show ?thesis
    using assms by (simp add: field_simps)
qed

lemma length_modulate: "length (modulate W y) = length y"
  by (simp add: modulate_def)

lemma length_modulate_nth: "n < length y \<Longrightarrow> length (modulate W y ! n) = length W"
  by (simp add: modulate_def)

lemma l2_norm_demodulated:
  assumes "n < length m" "o' < length (m ! n)" "0 \<le> eps"
  shows "l2_norm (demodulate eps m ! n ! o') =
         sqrt (sum_squares (m ! n ! o') / (sum_squares (m ! n ! o') + eps))"
proof -
  have "0 \<le> sum_squares (m ! n ! o') + eps"
    using sum_squares_nonneg [of "m ! n ! o'"] assms(3) by simp
  then have "(sqrt (sum_squares (m ! n ! o') + eps)) ^ 2 = sum_squares (m ! n ! o') + eps"
    by simp
  then show ?thesis
    using assms(1,2) by (simp add: l2_norm_def demodulate_nth sum_squares_divide)
qed

section \<open>Claims about utilities/image.py\<close>

text \<open>
  C10, as amended. Over the reals, \<open>gamma_reverse (gamma_forward u) = u\<close> for every
  \<open>u \<le> 0.0031308\<close> and for every \<open>u\<close> above \<open>((0.04045 + 0.055) / 1.055) powr 2.4\<close> (about
  0.00313080728, the linear value whose encoding is exactly 0.04045), and
  \<open>gamma_forward (gamma_reverse v) = v\<close> for every \<open>v \<le> 0.040449936\<close> (which is
  \<open>12.92 * 0.0031308\<close>) and for every \<open>v > 0.04045\<close>. On these inputs the two thresholds
  select corresponding branches. Nothing is said of the two bands in between.
\<close>

theorem gamma_inverse_outside_bands:
  "(u \<le> 0.0031308 \<or> (0.09545 / 1.055) powr 2.4 < u \<longrightarrow> gamma_reverse (gamma_forward u) = u) \<and>
   (v \<le> 0.040449936 \<or> 0.04045 < v \<longrightarrow> gamma_forward (gamma_reverse v) = v)"
  using reverse_forward_low [of u] reverse_forward_high [of u]
    forward_reverse_low [of v] forward_reverse_high [of v]
  by blast

theorem gamma_inverse_outside_bands_witness:
  "gamma_reverse (gamma_forward 0.001) = 0.001 \<and> gamma_forward (gamma_reverse 0.5) = 0.5 \<and>
   gamma_reverse (gamma_forward 0.003) = 0.003 \<and> gamma_forward (gamma_reverse 0.04) = 0.04"
  using gamma_inverse_outside_bands [of "0.001" "0.5"] gamma_inverse_outside_bands [of "0.003" "0.04"]
  by simp

text \<open>
  C10 as stated fails at the encoded value 0.04045, which lies in \<open>[0, 1]\<close>: it is decoded
  on the linear branch to \<open>0.04045 / 12.92\<close>, which is above 0.0031308 and so is encoded
  again on the power branch, to a different value.
\<close>

theorem gamma_inverse_counterexample:
  "(0::real) \<le> 0.04045 \<and> (0.04045::real) \<le> 1 \<and>
   gamma_forward (gamma_reverse 0.04045) \<noteq> 0.04045"
proof -
  let ?r = "0.04045 / 12.92 :: real"
  have "gamma_forward (gamma_reverse 0.04045) \<noteq> 0.04045"
  proof
    assume "gamma_forward (gamma_reverse 0.04045) = 0.04045"
    then have "1.055 * ?r powr (1 / 2.4) - 0.055 = 0.04045"
      by (simp add: gamma_forward_def gamma_reverse_def)
    then have "?r powr (1 / 2.4) = 0.09545 / 1.055"
      by (simp add: divide_simps)
    then have "(?r powr (1 / 2.4)) powr 2.4 = (0.09545 / 1.055) powr 2.4"
      by (rule arg_cong)
    moreover have "0 < ?r"
      by simp
    ultimately have "?r = (0.09545 / 1.055) powr 2.4"
      using powr_inverse_24 [of ?r] by (simp only:)
    moreover have "?r < (0.09545 / 1.055) powr 2.4"
      by (subst less_powr_24_iff) (simp_all add: divide_simps)
    ultimately show False
      by simp
  qed
  then show ?thesis
    by simp
qed




section \<open>Claims about stylegan/links/generator.py\<close>

lemma call_ignores_c:
  "WeightDemodulatedConvolution2D_call (l\<lparr>wdc_c := c'\<rparr>) x y = WeightDemodulatedConvolution2D_call l x y"
  by (simp add: WeightDemodulatedConvolution2D_call_def Let_def cong: if_cong option.case_cong)

lemma sqrt_quarter: "sqrt (1 / 4) = 1 / 2"
  by (simp add: real_sqrt_divide)

text \<open>
  C1 fails on the code. \<open>__init__\<close> computes the scale constant \<open>self.c\<close> from the gain and
  the fan-in, and \<open>__call__\<close> never reads it (\<open>call_ignores_c\<close>). For the 1x1 layer built
  with four input channels, three output channels, no demodulation and gain 1, the
  constant is 1/2; on a one-pixel input of ones with unit modulation and unit weights the
  call returns 4 in every output channel, where the convolution with the scaled weights
  gives 2.
\<close>

theorem scale_constant_not_applied:
  "\<exists>l. WeightDemodulatedConvolution2D_init 4 3 True False 1 (\<lambda>n k i j. 1) = Inr l \<and>
       wdc_c l = 1 / 2 \<and>
       WeightDemodulatedConvolution2D_call l [[[[1]], [[1]], [[1]], [[1]]]] [[1, 1, 1, 1]]
         = Inr [[[[4]], [[4]], [[4]]]] \<and>
       equalized_call l [[[[1]], [[1]], [[1]], [[1]]]] [[1, 1, 1, 1]]
         = Inr [[[[2]], [[2]], [[2]]]]"
proof -
  let ?w = "[[[[1]], [[1]], [[1]], [[1]]], [[[1]], [[1]], [[1]], [[1]]], [[[1]], [[1]], [[1]], [[1]]]] :: tensor4"
  let ?l = "\<lparr>wdc_demod = False, wdc_ksize = 1, wdc_pad = 0, wdc_c = 1 / 2,
            wdc_w = ?w, wdc_b = [0, 0, 0]\<rparr>"
  let ?x = "[[[[1]], [[1]], [[1]], [[1]]]] :: tensor4"
  let ?y = "[[1, 1, 1, 1]] :: tensor2"
  have init: "WeightDemodulatedConvolution2D_init 4 3 True False 1 (\<lambda>n k i j. 1) = Inr ?l"
    by (simp add: WeightDemodulatedConvolution2D_init_def tabulate4_def
        sqrt_quarter upt_conv_Cons numeral_3_eq_3)
  have l: "is_conv 4 3 True False 1 ?l"
    by (simp add: is_conv_def is_t4_def is_t3_def is_mat_def sqrt_quarter)
  then have l': "is_conv 4 3 True False 1 (?l\<lparr>wdc_w := map4 (\<lambda>v. v * wdc_c ?l) ?w\<rparr>)"
    by (simp add: is_conv_def is_t4_def is_t3_def is_mat_def map4_def)
  have x: "shape4 ?x = Some (1, 4, 1, 1)"
    by (simp add: shape4_eq_Some is_t4_def is_t3_def is_mat_def)
  have y: "shape2 ?y = Some (1, 4)"
    by (simp add: shape2_eq_Some is_mat_def)
  have "WeightDemodulatedConvolution2D_call ?l ?x ?y = Inr (map2 (conv_sample ?l 1 1) ?x ?y)"
    using l x y by (rule conv_call_per_sample)
  then have code: "WeightDemodulatedConvolution2D_call ?l ?x ?y = Inr [[[[4]], [[4]], [[4]]]]"
    by (simp add: conv_sample_def sample_weights_def modulate_def correlate_def pad_edge_def)
  have "equalized_call ?l ?x ?y
      = Inr (map2 (conv_sample (?l\<lparr>wdc_w := map4 (\<lambda>v. v * wdc_c ?l) ?w\<rparr>) 1 1) ?x ?y)"
    unfolding equalized_call_def using conv_call_per_sample [OF l' x y] by simp
  then have spec: "equalized_call ?l ?x ?y = Inr [[[[2]], [[2]], [[2]]]]"
    by (simp add: conv_sample_def sample_weights_def modulate_def correlate_def pad_edge_def map4_def)
  show ?thesis
    using init code spec by (intro exI [of _ ?l]) simp
qed

theorem scale_constant_not_applied_witness:
  "\<exists>l. WeightDemodulatedConvolution2D_init 4 3 True False 1 (\<lambda>n k i j. 1) = Inr l \<and>
       WeightDemodulatedConvolution2D_call l [[[[1]], [[1]], [[1]], [[1]]]] [[1, 1, 1, 1]]
         \<noteq> equalized_call l [[[[1]], [[1]], [[1]], [[1]]]] [[1, 1, 1, 1]]"
proof -
  obtain l where "WeightDemodulatedConvolution2D_init 4 3 True False 1 (\<lambda>n k i j. 1) = Inr l"
    and "WeightDemodulatedConvolution2D_call l [[[[1]], [[1]], [[1]], [[1]]]] [[1, 1, 1, 1]]
         = Inr [[[[4]], [[4]], [[4]]]]"
    and "equalized_call l [[[[1]], [[1]], [[1]], [[1]]]] [[1, 1, 1, 1]]
         = Inr [[[[2]], [[2]], [[2]]]]"
    using scale_constant_not_applied by blast
  then show ?thesis
    by (intro exI [of _ l]) simp
qed

text \<open>
  C3. The modulation vector is all ones, \<open>W\<close> is the weight of the layer and the output
  channel \<open>o'\<close> of \<open>W\<close> is not all zero. After line 33 the L2 norm of the weights of output
  channel \<open>o'\<close> of every sample is exactly 1 when the epsilon is left out (taken as 0);
  with the epsilon of the source it is \<open>sqrt (S / (S + 1e-8))\<close>, where \<open>S\<close> is the squared
  norm of the channel before the step: below 1, and above \<open>1 - 1e-8 / S\<close>.
\<close>

theorem demodulation_identity:
  assumes "is_t4 cout cin k k W" and "n < B" and "o' < cout" and "0 < l2_norm (W ! o')"
  shows "l2_norm (demodulate 0 (modulate W (replicate B (replicate cin 1))) ! n ! o') = 1 \<and>
         l2_norm (demodulate 0.00000001 (modulate W (replicate B (replicate cin 1))) ! n ! o')
           = sqrt ((l2_norm (W ! o'))\<^sup>2 / ((l2_norm (W ! o'))\<^sup>2 + 0.00000001)) \<and>
         1 - 0.00000001 / (l2_norm (W ! o'))\<^sup>2
           < l2_norm (demodulate 0.00000001 (modulate W (replicate B (replicate cin 1))) ! n ! o') \<and>
         l2_norm (demodulate 0.00000001 (modulate W (replicate B (replicate cin 1))) ! n ! o') < 1"
proof -
  define m where "m = modulate W (replicate B (replicate cin 1))"
  define S where "S = sum_squares (W ! o')"
  define e :: real where "e = 0.00000001"
  have e: "0 < e"
    by (simp add: e_def)
  have S: "0 < S"
    using assms(4) by (simp add: l2_norm_def S_def)
  have sq: "(l2_norm (W ! o'))\<^sup>2 = S"
    using S by (simp add: l2_norm_def S_def)
  have mo: "m ! n ! o' = W ! o'"
    unfolding m_def using assms(1-3) by (rule modulate_ones)
  have len: "n < length m" "o' < length (m ! n)"
    using assms(1-3) by (simp_all add: m_def length_modulate length_modulate_nth is_t4_def)
  have n0: "l2_norm (demodulate 0 m ! n ! o') = 1"
    using l2_norm_demodulated [OF len, of 0] S by (simp add: mo S_def)
  have ne: "l2_norm (demodulate e m ! n ! o') = sqrt (S / (S + e))"
    using l2_norm_demodulated [OF len, of e] e by (simp add: mo S_def)
  have q: "0 < S / (S + e)" "S / (S + e) < 1"
    using S e by simp_all
  have "S / (S + e) \<le> sqrt (S / (S + e))"
    using q by (intro le_sqrt_unit) simp_all
  moreover have "1 - e / S < S / (S + e)"
    using S e by (rule frac_bound)
  ultimately have lo: "1 - e / S < sqrt (S / (S + e))"
    by linarith
  have hi: "sqrt (S / (S + e)) < 1"
    using q by simp
  show ?thesis
    using n0 ne lo hi unfolding sq m_def [symmetric] e_def [symmetric] by simp
qed

theorem demodulation_identity_witness:
  "l2_norm (demodulate 0 (modulate [[[[3]], [[4]]]] (replicate 1 (replicate 2 1))) ! 0 ! 0) = 1 \<and>
   l2_norm (demodulate 0.00000001 (modulate [[[[3]], [[4]]]] (replicate 1 (replicate 2 1))) ! 0 ! 0)
     = sqrt ((l2_norm ([[[[3]], [[4]]]] ! 0))\<^sup>2 / ((l2_norm ([[[[3]], [[4]]]] ! 0))\<^sup>2 + 0.00000001)) \<and>
   1 - 0.00000001 / (l2_norm ([[[[3]], [[4]]]] ! 0))\<^sup>2
     < l2_norm (demodulate 0.00000001 (modulate [[[[3]], [[4]]]] (replicate 1 (replicate 2 1))) ! 0 ! 0) \<and>
   l2_norm (demodulate 0.00000001 (modulate [[[[3]], [[4]]]] (replicate 1 (replicate 2 1))) ! 0 ! 0) < 1"
proof (rule demodulation_identity)
  show "is_t4 1 2 1 1 [[[[3]], [[4 :: real]]]]"
    by (simp add: is_t4_def is_t3_def is_mat_def)
  show "0 < l2_norm ([[[[3]], [[4]]]] ! 0)"
    by (simp add: l2_norm_def sum_squares_def)
qed simp_all

text \<open>
  C4. A layer in the state \<open>__init__\<close> leaves it in, a feature map of shape
  \<open>(B, cin, H, W)\<close> and a modulation of shape \<open>(B, cin)\<close>: the call returns, and what it
  returns has shape \<open>(B, cout, H, W)\<close>. The kernel is 1x1 for a pointwise layer and 3x3
  otherwise, the padding is \<open>(ksize - 1) / 2\<close>, and the array handed to the grouped
  convolution is the input regrouped to \<open>(1, B * cin, H, W)\<close> and extended by the padding on
  each side of both spatial axes.
\<close>

theorem conv_preserves_spatial_size:
  assumes "is_conv cin cout pw dm gain l"
    and "shape4 x = Some (B, cin, H, W)"
    and "shape2 y = Some (B, cin)"
  shows "(\<exists>h. WeightDemodulatedConvolution2D_call l x y = Inr h \<and> shape4 h = Some (B, cout, H, W)) \<and>
         wdc_ksize l = (if pw then 1 else 3) \<and>
         wdc_pad l = (wdc_ksize l - 1) div 2 \<and>
         shape4 (pad [concat x] (wdc_pad l)) = Some (1, B * cin, H + 2 * wdc_pad l, W + 2 * wdc_pad l)"
proof -
  have "wdc_ksize l = (if pw then 1 else 3)" "wdc_pad l = (if pw then 0 else 1)"
    using assms(1) unfolding is_conv_def by blast+
  then show ?thesis
    using conv_call_per_sample [OF assms] shape4_conv_samples [OF assms] shape4_pad_group [OF assms(2)]
    by simp
qed

theorem conv_preserves_spatial_size_witness:
  "(\<exists>h. WeightDemodulatedConvolution2D_call
          \<lparr>wdc_demod = True, wdc_ksize = 3, wdc_pad = 1, wdc_c = sqrt 2 * sqrt (1 / 18),
           wdc_w = [[[[1, 0, 0], [0, 1, 0], [0, 0, 1]], [[0, 0, 0], [0, 2, 0], [0, 0, 0]]]],
           wdc_b = [1 / 2]\<rparr>
          [[[[1, 2], [3, 4]], [[5, 6], [7, 8]]]] [[1, 1]] = Inr h \<and>
        shape4 h = Some (1, 1, 2, 2)) \<and>
   shape4 (pad [concat [[[[1, 2], [3, 4]], [[5, 6], [7, 8]]]]] 1) = Some (1, 2, 4, 4)"
proof -
  let ?l = "\<lparr>wdc_demod = True, wdc_ksize = 3, wdc_pad = 1, wdc_c = sqrt 2 * sqrt (1 / 18),
           wdc_w = [[[[1, 0, 0], [0, 1, 0], [0, 0, 1]], [[0, 0, 0], [0, 2, 0], [0, 0, 0]]]],
           wdc_b = [1 / 2]\<rparr>"
  let ?x = "[[[[1, 2], [3, 4]], [[5, 6], [7, 8]]]] :: tensor4"
  have "is_conv 2 1 False True (sqrt 2) ?l"
    by (simp add: is_conv_def is_t4_def is_t3_def is_mat_def)
  moreover have "shape4 ?x = Some (1, 2, 2, 2)"
    by (simp add: shape4_eq_Some is_t4_def is_t3_def is_mat_def)
  moreover have "shape2 [[1, 1 :: real]] = Some (1, 2)"
    by (simp add: shape2_eq_Some is_mat_def)
  ultimately show ?thesis
    using conv_preserves_spatial_size [of 2 1 False True "sqrt 2" ?l ?x 1 2 2 "[[1, 1]]"]
    by simp
qed

text \<open>
  C5. For a block in the state \<open>__init__\<close> leaves it in and inputs of matching shapes, the
  call returns a feature map \<open>f\<close> and an accumulator \<open>r\<close>; \<open>r\<close> is, entry by entry, the sum of
  the incoming accumulator upsampled to twice its height and width and of the output of
  \<open>self.trgb\<close> on the returned feature map \<open>f\<close>, modulated by \<open>self.s3\<close> of the style vector.
\<close>

theorem skip_accumulation:
  assumes "is_skip d cin cout p"
    and "shape4 x = Some (B, cin, H, W)"
    and "shape4 y = Some (B, 3, H, W)"
    and "shape2 w = Some (B, d)"
  shows "\<exists>f r up_y y3 rgb.
           SkipArchitecture_call p g1 g2 x y w = Inr (f, r) \<and>
           Upsampler_call y = Inr up_y \<and> shape4 up_y = Some (B, 3, H * 2, W * 2) \<and>
           StyleAffineTransform_call (sa_s3 p) w = Inr y3 \<and>
           ToRGB_call (sa_trgb p) f y3 = Inr rgb \<and> shape4 rgb = Some (B, 3, H * 2, W * 2) \<and>
           add4 up_y rgb = Inr r \<and>
           (\<forall>n<B. \<forall>k<3. \<forall>i<H * 2. \<forall>j<W * 2.
              r ! n ! k ! i ! j = up_y ! n ! k ! i ! j + rgb ! n ! k ! i ! j)"
proof -
  obtain f r where call: "SkipArchitecture_call p g1 g2 x y w = Inr (f, r)"
    using skip_call_shapes [OF assms, of g1 g2] by blast
  then obtain up_y y3 rgb where steps: "Upsampler_call y = Inr up_y"
    "StyleAffineTransform_call (sa_s3 p) w = Inr y3"
    "ToRGB_call (sa_trgb p) f y3 = Inr rgb" "add4 up_y rgb = Inr r"
    using skip_call_steps [OF call] by blast
  have up: "shape4 up_y = Some (B, 3, H * 2, W * 2)"
    using assms(3) steps(1) by (rule Upsampler_call_shape)
  then have "shape4 rgb = Some (B, 3, H * 2, W * 2)"
    using add4_shape [OF steps(4)] by simp
  moreover have "\<forall>n<B. \<forall>k<3. \<forall>i<H * 2. \<forall>j<W * 2.
      r ! n ! k ! i ! j = up_y ! n ! k ! i ! j + rgb ! n ! k ! i ! j"
    using add4_nth [OF steps(4) up] by blast
  ultimately show ?thesis
    using call steps up by blast
qed

theorem skip_accumulation_witness:
  "\<exists>f r up_y y3 rgb.
     SkipArchitecture_call (example_skip 2 1 1) (\<lambda>n k i j. 0) (\<lambda>n k i j. 0)
       [[[[1]]]] [[[[1]], [[2]], [[3]]]] [[1, 2]] = Inr (f, r) \<and>
     Upsampler_call [[[[1]], [[2]], [[3]]]] = Inr up_y \<and> shape4 up_y = Some (1, 3, 1 * 2, 1 * 2) \<and>
     StyleAffineTransform_call (sa_s3 (example_skip 2 1 1)) [[1, 2]] = Inr y3 \<and>
     ToRGB_call (sa_trgb (example_skip 2 1 1)) f y3 = Inr rgb \<and>
     shape4 rgb = Some (1, 3, 1 * 2, 1 * 2) \<and>
     add4 up_y rgb = Inr r \<and>
     (\<forall>n<1. \<forall>k<3. \<forall>i<1 * 2. \<forall>j<1 * 2.
        r ! n ! k ! i ! j = up_y ! n ! k ! i ! j + rgb ! n ! k ! i ! j)"
proof (rule skip_accumulation)
  show "is_skip 2 1 1 (example_skip 2 1 1)"
    by (simp add: is_skip_example)
  show "shape4 [[[[1 :: real]]]] = Some (1, 1, 1, 1)"
    by (simp add: shape4_eq_Some is_t4_def is_t3_def is_mat_def)
  show "shape4 [[[[1 :: real]], [[2]], [[3]]]] = Some (1, 3, 1, 1)"
    by (simp add: shape4_eq_Some is_t4_def is_t3_def is_mat_def)
  show "shape2 [[1, 2 :: real]] = Some (1, 2)"
    by (simp add: shape2_eq_Some is_mat_def)
qed

lemma demod_divisor_zero_modulation:
  assumes W: "is_t4 cout cin k k W"
  shows "demod_divisor eps (modulate W (replicate B (replicate cin 0)))
         = replicate B (replicate cout (sqrt eps))"
proof -
  define m where "m = modulate W (replicate B (replicate cin 0))"
  have len: "length m = B" "\<And>n. n < B \<Longrightarrow> length (m ! n) = cout"
    using W by (simp_all add: m_def length_modulate length_modulate_nth is_t4_def)
  have zero: "sum_squares (m ! n ! o') = 0" if n: "n < B" and o': "o' < cout" for n o'
  proof -
    have "is_t3 cin k k (W ! o')"
      using W o' by (simp add: is_t4_nth)
    then have "length (W ! o') = cin"
      by (simp add: is_t3_def)
    then have "map2 (\<lambda>kc yc. map (map (\<lambda>v. v * yc)) kc) (W ! o') (replicate cin (0::real))
        = map (map (map (\<lambda>v. 0))) (W ! o')"
      by (intro nth_equalityI) simp_all
    then have "m ! n ! o' = map (map (map (\<lambda>v. 0))) (W ! o')"
      using W n o' by (simp add: m_def modulate_def is_t4_def)
    then show ?thesis
      by (simp add: sum_squares_def o_def)
  qed
  have row: "demod_divisor eps m ! n = replicate cout (sqrt eps)" if n: "n < B" for n
  proof (rule nth_equalityI)
    show "length (demod_divisor eps m ! n) = length (replicate cout (sqrt eps))"
      using len n by (simp add: demod_divisor_def sum_axes_234_def)
  next
    fix o' assume "o' < length (demod_divisor eps m ! n)"
    then have o': "o' < cout"
      using len n by (simp add: demod_divisor_def sum_axes_234_def)
    show "demod_divisor eps m ! n ! o' = replicate cout (sqrt eps) ! o'"
      using demod_divisor_nth [of n m o' eps] len n o' zero [OF n o'] by simp
  qed
  have "demod_divisor eps m = replicate B (replicate cout (sqrt eps))"
    using len row by (intro nth_equalityI) (simp_all add: demod_divisor_def sum_axes_234_def)
  then show ?thesis
    by (simp add: m_def)
qed

text \<open>
  C6. Whatever the modulated weights, every divisor of line 33 is positive. When the
  modulation vector is all zero every divisor is \<open>sqrt 1e-8\<close>, whatever the weight, and the
  call of a layer with demodulation returns.
\<close>

theorem demodulation_divisor_positive:
  "list_all (list_all (\<lambda>d. 0 < d)) (demod_divisor 0.00000001 mod_w) \<and>
   (is_t4 cout cin k k W \<longrightarrow>
      demod_divisor 0.00000001 (modulate W (replicate B (replicate cin 0)))
        = replicate B (replicate cout (sqrt 0.00000001))) \<and>
   (is_conv cin cout pw True gain l \<and> shape4 x = Some (B, cin, H, W') \<longrightarrow>
      (\<exists>h. WeightDemodulatedConvolution2D_call l x (replicate B (replicate cin 0)) = Inr h))"
proof (intro conjI impI)
  have "\<And>k. 0 < sqrt (sum_squares k + 0.00000001)"
    using sum_squares_nonneg by (simp add: add_nonneg_pos)
  then show "list_all (list_all (\<lambda>d. 0 < d)) (demod_divisor 0.00000001 mod_w)"
    by (simp add: demod_divisor_def sum_axes_234_def list_all_iff sum_squares_def)
next
  assume "is_t4 cout cin k k W"
  then show "demod_divisor 0.00000001 (modulate W (replicate B (replicate cin 0)))
        = replicate B (replicate cout (sqrt 0.00000001))"
    by (rule demod_divisor_zero_modulation)
next
  assume a: "is_conv cin cout pw True gain l \<and> shape4 x = Some (B, cin, H, W')"
  then have "0 < B" "0 < cin"
    by (simp_all add: shape4_eq_Some)
  then have "shape2 (replicate B (replicate cin (0::real))) = Some (B, cin)"
    by (rule shape2_replicate)
  then show "\<exists>h. WeightDemodulatedConvolution2D_call l x (replicate B (replicate cin 0)) = Inr h"
    using a conv_call_per_sample [of cin cout pw True gain l x B H W' "replicate B (replicate cin 0)"]
    by simp
qed

theorem demodulation_divisor_positive_witness:
  "list_all (list_all (\<lambda>d. 0 < d))
     (demod_divisor 0.00000001 (modulate [[[[3]], [[4]]]] (replicate 2 (replicate 2 0)))) \<and>
   demod_divisor 0.00000001 (modulate [[[[3]], [[4]]]] (replicate 2 (replicate 2 0)))
     = replicate 2 (replicate 1 (sqrt 0.00000001)) \<and>
   (\<exists>h. WeightDemodulatedConvolution2D_call (example_conv 2 1 True True 1)
          [[[[1]], [[2]]], [[[3]], [[4]]]] (replicate 2 (replicate 2 0)) = Inr h)"
proof -
  have W: "is_t4 1 2 1 1 [[[[3]], [[4 :: real]]]]"
    by (simp add: is_t4_def is_t3_def is_mat_def)
  have l: "is_conv 2 1 True True 1 (example_conv 2 1 True True 1)"
    by (simp add: is_conv_example)
  have x: "shape4 [[[[1]], [[2]]], [[[3]], [[4 :: real]]]] = Some (2, 2, 1, 1)"
    by (simp add: shape4_eq_Some is_t4_def is_t3_def is_mat_def)
  show ?thesis
    using demodulation_divisor_positive [of "modulate [[[[3]], [[4]]]] (replicate 2 (replicate 2 0))"
        1 2 1 "[[[[3]], [[4]]]]" 2 True 1 "example_conv 2 1 True True 1"
        "[[[[1]], [[2]]], [[[3]], [[4]]]]" 1 1] W l x
    by blast
qed

text \<open>
  C8. An \<open>InitialSkipArchitecture\<close> built with 512 input and 512 output channels for style
  vectors of dimension 512, called on a batch of two style vectors, returns a feature map
  of shape (2, 512, 4, 4) and an accumulator of shape (2, 3, 4, 4); a \<open>SkipArchitecture\<close>
  built with 512 input and 256 output channels, called on these two and a batch of two
  style vectors, returns a feature map of shape (2, 256, 8, 8) and an accumulator of shape
  (2, 3, 8, 8).
\<close>

theorem end_to_end_shapes:
  assumes "is_initial 512 512 512 p"
    and "is_skip 512 512 256 q"
    and "shape2 w = Some (2, 512)"
    and "shape2 w' = Some (2, 512)"
  shows "\<exists>f r f' r'.
           InitialSkipArchitecture_call p g w = Inr (f, r) \<and>
           shape4 f = Some (2, 512, 4, 4) \<and> shape4 r = Some (2, 3, 4, 4) \<and>
           SkipArchitecture_call q g1 g2 f r w' = Inr (f', r') \<and>
           shape4 f' = Some (2, 256, 8, 8) \<and> shape4 r' = Some (2, 3, 8, 8)"
proof -
  obtain f r where i: "InitialSkipArchitecture_call p g w = Inr (f, r)"
    "shape4 f = Some (2, 512, 4, 4)" "shape4 r = Some (2, 3, 4, 4)"
    using initial_call_shapes [OF assms(1,3), of g] by blast
  obtain f' r' where "SkipArchitecture_call q g1 g2 f r w' = Inr (f', r')"
    "shape4 f' = Some (2, 256, 4 * 2, 4 * 2)" "shape4 r' = Some (2, 3, 4 * 2, 4 * 2)"
    using skip_call_shapes [OF assms(2) i(2,3) assms(4), of g1 g2] by blast
  with i show ?thesis
    by simp
qed

theorem end_to_end_shapes_witness:
  "\<exists>f r f' r'.
     InitialSkipArchitecture_call (example_initial 512 512 512) (\<lambda>n k i j. 0)
       (replicate 2 (replicate 512 1)) = Inr (f, r) \<and>
     shape4 f = Some (2, 512, 4, 4) \<and> shape4 r = Some (2, 3, 4, 4) \<and>
     SkipArchitecture_call (example_skip 512 512 256) (\<lambda>n k i j. 0) (\<lambda>n k i j. 0) f r
       (replicate 2 (replicate 512 1)) = Inr (f', r') \<and>
     shape4 f' = Some (2, 256, 8, 8) \<and> shape4 r' = Some (2, 3, 8, 8)"
  using end_to_end_shapes [of "example_initial 512 512 512" "example_skip 512 512 256"
      "replicate 2 (replicate 512 1)" "replicate 2 (replicate 512 1)"]
  by (simp add: is_initial_example is_skip_example shape2_replicate)

text \<open>
  C9. \<open>SkipArchitecture.__call__\<close> takes one batch of style vectors \<open>w\<close>, one vector for each
  sample. On inputs of matching shapes the call returns, and its value is made in these
  steps: the three projections \<open>self.s1\<close>, \<open>self.s2\<close> and \<open>self.s3\<close> are each applied to \<open>w\<close>
  itself, and their results modulate the first convolution, the second convolution and
  the RGB projection.
\<close>

theorem single_style_vector:
  assumes "is_skip d cin cout p"
    and "shape4 x = Some (B, cin, H, W)"
    and "shape4 y = Some (B, 3, H, W)"
    and "shape2 w = Some (B, d)"
  shows "\<exists>f r h1 y1 h2 h3 y2 h5 h6 up_y y3 rgb.
           SkipArchitecture_call p g1 g2 x y w = Inr (f, r) \<and>
           Upsampler_call x = Inr h1 \<and>
           StyleAffineTransform_call (sa_s1 p) w = Inr y1 \<and>
           WeightDemodulatedConvolution2D_call (sa_w1 p) h1 y1 = Inr h2 \<and>
           NoiseAdder_call (sa_n1 p) g1 h2 = Inr h3 \<and>
           StyleAffineTransform_call (sa_s2 p) w = Inr y2 \<and>
           WeightDemodulatedConvolution2D_call (sa_w2 p) (LeakyRelu_call (sa_a1 p) h3) y2 = Inr h5 \<and>
           NoiseAdder_call (sa_n2 p) g2 h5 = Inr h6 \<and>
           f = LeakyRelu_call (sa_a2 p) h6 \<and>
           Upsampler_call y = Inr up_y \<and>
           StyleAffineTransform_call (sa_s3 p) w = Inr y3 \<and>
           ToRGB_call (sa_trgb p) f y3 = Inr rgb \<and>
           add4 up_y rgb = Inr r"
proof -
  obtain f r where call: "SkipArchitecture_call p g1 g2 x y w = Inr (f, r)"
    using skip_call_shapes [OF assms, of g1 g2] by blast
  show ?thesis
    using skip_call_steps [OF call] call by blast
qed

theorem single_style_vector_witness:
  "\<exists>f r h1 y1 h2 h3 y2 h5 h6 up_y y3 rgb.
     SkipArchitecture_call (example_skip 2 1 1) (\<lambda>n k i j. 0) (\<lambda>n k i j. 0)
       [[[[1]]]] [[[[1]], [[2]], [[3]]]] [[1, 2]] = Inr (f, r) \<and>
     Upsampler_call [[[[1]]]] = Inr h1 \<and>
     StyleAffineTransform_call (sa_s1 (example_skip 2 1 1)) [[1, 2]] = Inr y1 \<and>
     WeightDemodulatedConvolution2D_call (sa_w1 (example_skip 2 1 1)) h1 y1 = Inr h2 \<and>
     NoiseAdder_call (sa_n1 (example_skip 2 1 1)) (\<lambda>n k i j. 0) h2 = Inr h3 \<and>
     StyleAffineTransform_call (sa_s2 (example_skip 2 1 1)) [[1, 2]] = Inr y2 \<and>
     WeightDemodulatedConvolution2D_call (sa_w2 (example_skip 2 1 1))
       (LeakyRelu_call (sa_a1 (example_skip 2 1 1)) h3) y2 = Inr h5 \<and>
     NoiseAdder_call (sa_n2 (example_skip 2 1 1)) (\<lambda>n k i j. 0) h5 = Inr h6 \<and>
     f = LeakyRelu_call (sa_a2 (example_skip 2 1 1)) h6 \<and>
     Upsampler_call [[[[1]], [[2]], [[3]]]] = Inr up_y \<and>
     StyleAffineTransform_call (sa_s3 (example_skip 2 1 1)) [[1, 2]] = Inr y3 \<and>
     ToRGB_call (sa_trgb (example_skip 2 1 1)) f y3 = Inr rgb \<and>
     add4 up_y rgb = Inr r"
proof -
  have "is_skip 2 1 1 (example_skip 2 1 1)"
    by (simp add: is_skip_example)
  moreover have "shape4 [[[[1 :: real]]]] = Some (1, 1, 1, 1)"
    "shape4 [[[[1 :: real]], [[2]], [[3]]]] = Some (1, 3, 1, 1)"
    by (simp_all add: shape4_eq_Some is_t4_def is_t3_def is_mat_def)
  moreover have "shape2 [[1, 2 :: real]] = Some (1, 2)"
    by (simp add: shape2_eq_Some is_mat_def)
  ultimately show ?thesis
    by (rule single_style_vector)
qed

end
